theory Spec2Isabelle
  imports Main "HOL-Library.Word" "HOL-Library.AList"
begin

section \<open>Values read from the store and carried by resources\<close>

text \<open>
  A Go \<^verbatim>\<open>interface{}\<close> value, as far as \<^verbatim>\<open>resyncCluster\<close> and
  \<^verbatim>\<open>valueToString\<close> inspect it: \<^verbatim>\<open>int64\<close>, \<^verbatim>\<open>int\<close> (64 bits wide on the
  platforms the aggregator is built for), \<^verbatim>\<open>string\<close>, \<^verbatim>\<open>[]interface{}\<close>,
  \<^verbatim>\<open>*rg2.Node\<close> (represented by its \<^verbatim>\<open>Properties\<close> map), the nil interface, and
  \<open>VOther\<close> for a value of any other dynamic type (bool, float64, ...), with an opaque tag.
  Go maps are association lists read with \<open>map_of\<close>; the order of the list stands for one of
  the iteration orders a Go \<^verbatim>\<open>range\<close> may take.
\<close>

datatype gvalue =
    VInt64 "64 word"
  | VInt "64 word"
  | VString string
  | VSlice "gvalue list"
  | VNode "(string \<times> gvalue) list"
  | VNil
  | VOther nat

type_synonym properties = "(string \<times> gvalue) list"

text \<open>Indexing a Go map: a missing key gives the zero value, here the nil interface.\<close>

definition mapIndex :: "properties \<Rightarrow> string \<Rightarrow> gvalue" where
  "mapIndex m k = (case map_of m k of Some v \<Rightarrow> v | None \<Rightarrow> VNil)"

subsection \<open>strconv.FormatInt and fmt.Sprintf\<close>

text \<open>
  \<^verbatim>\<open>strconv.FormatInt(i, 10)\<close> and \<^verbatim>\<open>strconv.Itoa\<close>: a minus sign for a negative
  number, then the digits of the magnitude, most significant first.
\<close>

fun fmtNat :: "nat \<Rightarrow> string" where
  "fmtNat n = (if n < 10 then [char_of (48 + n)]
               else fmtNat (n div 10) @ [char_of (48 + n mod 10)])"

declare fmtNat.simps [simp del]

definition FormatInt :: "int \<Rightarrow> string" where
  "FormatInt i = (if i < 0 then CHR ''-'' # fmtNat (nat (- i)) else fmtNat (nat i))"

text \<open>
  \<^verbatim>\<open>fmt.Sprintf\<close> restricted to the verb the source uses, \<^verbatim>\<open>%s\<close> with a string
  argument: every \<^verbatim>\<open>%s\<close> is replaced by the next argument, any other text is copied.
\<close>

fun Sprintf :: "string \<Rightarrow> string list \<Rightarrow> string" where
  "Sprintf [] args = []"
| "Sprintf [c] args = [c]"
| "Sprintf (c # d # rest) args =
     (if c = CHR ''%'' \<and> d = CHR ''s'' then
        (case args of a # args' \<Rightarrow> a @ Sprintf rest args'
                    | [] \<Rightarrow> c # Sprintf (d # rest) args)
      else c # Sprintf (d # rest) args)"

subsection \<open>valueToString\<close>

text \<open>
  The type switch of \<^verbatim>\<open>valueToString\<close>: \<^verbatim>\<open>int64\<close>, \<^verbatim>\<open>int\<close>, and in the default
  branch a checked assertion to \<^verbatim>\<open>string\<close>; \<open>stringValue\<close> keeps its zero value, the
  empty string, otherwise. The glog warning of the last branch is not part of the model.
\<close>

fun valueToString :: "gvalue \<Rightarrow> string" where
  "valueToString (VInt64 typedVal) = FormatInt (sint typedVal)"
| "valueToString (VInt typedVal) = FormatInt (sint typedVal)"
| "valueToString (VString s) = s"
| "valueToString (VSlice xs) = []"
| "valueToString (VNode ps) = []"
| "valueToString VNil = []"
| "valueToString (VOther t) = []"

text \<open>
  Reading a decimal numeral back (not in the source: it gives "base-10 decimal" a meaning
  against which \<open>FormatInt\<close> is checked).
\<close>

definition digitVal :: "char \<Rightarrow> nat" where
  "digitVal c = of_char c - 48"

definition isDigit :: "char \<Rightarrow> bool" where
  "isDigit c = (48 \<le> (of_char c :: nat) \<and> (of_char c :: nat) \<le> 57)"

fun allDigits :: "string \<Rightarrow> bool" where
  "allDigits [] = True"
| "allDigits (c # cs) = (isDigit c \<and> allDigits cs)"

definition decNat :: "string \<Rightarrow> nat" where
  "decNat s = foldl (\<lambda>a c. 10 * a + digitVal c) 0 s"

fun decimalValue :: "string \<Rightarrow> int option" where
  "decimalValue [] = None"
| "decimalValue (c # cs) =
     (if c = CHR ''-'' then (if cs \<noteq> [] \<and> allDigits cs then Some (- int (decNat cs)) else None)
      else if allDigits (c # cs) then Some (int (decNat (c # cs))) else None)"

section \<open>Data model\<close>

text \<open>
  \<^verbatim>\<open>db.Resource\<close> and \<^verbatim>\<open>db.Edge\<close> with the fields \<^verbatim>\<open>resyncCluster\<close> reads. An
  \<^verbatim>\<open>rg2.Node\<close> is represented by its \<^verbatim>\<open>Properties\<close>. A Go \<^verbatim>\<open>error\<close> is
  represented by its message; \<open>None\<close> is the nil error.
\<close>

record Resource =
  UID :: string
  Properties :: properties

record Edge =
  SourceUID :: string
  EdgeType :: string
  DestUID :: string

type_synonym error = string

text \<open>
  An \<^verbatim>\<open>rg2.QueryResult\<close>: the records that \<^verbatim>\<open>Next\<close>/\<^verbatim>\<open>Record\<close> enumerate, each a
  list of positional values, and the counter that \<^verbatim>\<open>RelationshipsDeleted\<close> reports.
  \<^verbatim>\<open>Store.Query\<close> returns a pointer to one, which may be nil.
\<close>

record QueryResult =
  results :: "gvalue list list"
  RelationshipsDeleted :: int

record ChunkedOperationResult =
  ResourceErrors :: "(string \<times> error) list"
  ConnectionError :: "error option"
  SuccessfulResources :: int
  EdgesAdded :: int
  EdgesDeleted :: int

type_synonym SyncError = "string \<times> string"

record SyncResponse =
  TotalAdded :: int
  TotalUpdated :: int
  TotalDeleted :: int
  TotalEdgesAdded :: int
  TotalEdgesDeleted :: int
  AddErrors :: "SyncError list"
  UpdateErrors :: "SyncError list"
  DeleteErrors :: "SyncError list"
  AddEdgeErrors :: "SyncError list"
  DeleteEdgeErrors :: "SyncError list"

text \<open>The zero value of the named result \<^verbatim>\<open>stats\<close>.\<close>

definition zeroSyncResponse :: SyncResponse where
  "zeroSyncResponse =
     \<lparr>TotalAdded = 0, TotalUpdated = 0, TotalDeleted = 0, TotalEdgesAdded = 0,
      TotalEdgesDeleted = 0, AddErrors = [], UpdateErrors = [], DeleteErrors = [],
      AddEdgeErrors = [], DeleteEdgeErrors = []\<rparr>"

text \<open>A run-time panic of the Go program.\<close>

datatype panic = NilDereference | TypeAssertion

subsection \<open>What the run does to the outside\<close>

text \<open>
  The glog lines at Error and Warning level (Info and verbose lines are left out), and the
  calls that leave \<^verbatim>\<open>resyncCluster\<close>, each with what it returned, in program order.
\<close>

datatype logline =
    Err_GettingExistingResources string
  | Warn_DuplicateRecords string int
  | Err_DeletingDuplicates string error
  | Warn_EncodingProperties error
  | Warn_GettingExistingEdges string error
  | Warn_DeletingDuplicateEdges string error
  | Err_DuplicateEdgesInPayload string
  | Warn_ExpectedEdgesMismatch string int int

datatype event =
    EvQuery string "QueryResult option" "error option"
  | EvChunkedInsert "Resource list" string ChunkedOperationResult
  | EvChunkedUpdate "Resource list" ChunkedOperationResult
  | EvChunkedDelete "string list" ChunkedOperationResult
  | EvChunkedInsertEdge "Edge list" string ChunkedOperationResult
  | EvChunkedDeleteEdge "Edge list" string ChunkedOperationResult
  | EvComputeIntraEdges string int
  | EvLog logline

text \<open>
  The collaborators of \<^verbatim>\<open>resyncCluster\<close> that are not part of the function: the store
  client, the chunked mutation operations, the sanitizer, the property encoder,
  \<^verbatim>\<open>computeIntraEdges\<close> and \<^verbatim>\<open>processSyncErrors\<close>. They are parameters of the model;
  the ones that talk to the store take and return the store's state \<open>'s\<close>.
\<close>

record 's Deps =
  Store_Query :: "string \<Rightarrow> 's \<Rightarrow> (QueryResult option \<times> error option) \<times> 's"
  SanitizeQuery :: "string \<Rightarrow> string list \<Rightarrow> string"
  EncodeProperties :: "Resource \<Rightarrow> error + properties"
  ChunkedInsert :: "Resource list \<Rightarrow> string \<Rightarrow> 's \<Rightarrow> ChunkedOperationResult \<times> 's"
  ChunkedUpdate :: "Resource list \<Rightarrow> 's \<Rightarrow> ChunkedOperationResult \<times> 's"
  ChunkedDelete :: "string list \<Rightarrow> 's \<Rightarrow> ChunkedOperationResult \<times> 's"
  ChunkedInsertEdge :: "Edge list \<Rightarrow> string \<Rightarrow> 's \<Rightarrow> ChunkedOperationResult \<times> 's"
  ChunkedDeleteEdge :: "Edge list \<Rightarrow> string \<Rightarrow> 's \<Rightarrow> ChunkedOperationResult \<times> 's"
  computeIntraEdges :: "string \<Rightarrow> 's \<Rightarrow> int \<times> 's"
  processSyncErrors :: "(string \<times> error) list \<Rightarrow> string \<Rightarrow> SyncError list"

text \<open>
  The variables a run carries from one stage to the next: the named results \<^verbatim>\<open>stats\<close> and
  \<^verbatim>\<open>err\<close>, the state of the store, and the events so far.
\<close>

record 's run =
  run_stats :: SyncResponse
  run_err :: "error option"
  run_store :: 's
  run_trace :: "event list"

definition emit :: "event list \<Rightarrow> 's run \<Rightarrow> 's run" where
  "emit evs r = r\<lparr>run_trace := run_trace r @ evs\<rparr>"

definition query :: "'s Deps \<Rightarrow> string \<Rightarrow> 's run \<Rightarrow> (QueryResult option \<times> error option) \<times> 's run" where
  "query D q r =
     (let ((result, e), s') = Store_Query D q (run_store r)
      in ((result, e), r\<lparr>run_store := s', run_trace := run_trace r @ [EvQuery q result e]\<rparr>))"

definition intraEdges :: "'s Deps \<Rightarrow> string \<Rightarrow> 's run \<Rightarrow> 's run" where
  "intraEdges D clusterName r =
     (let (n, s') = computeIntraEdges D clusterName (run_store r)
      in r\<lparr>run_store := s', run_trace := run_trace r @ [EvComputeIntraEdges clusterName n]\<rparr>)"

section \<open>resyncCluster, stage by stage\<close>

definition getEdgeUID :: "string \<Rightarrow> string \<Rightarrow> string \<Rightarrow> string" where
  "getEdgeUID sourceUID edgeType destUID = Sprintf ''%s-%s->%s'' [sourceUID, edgeType, destUID]"

text \<open>\<^verbatim>\<open>Record.GetByIndex\<close> of the graph client: nil beyond the last value.\<close>

definition GetByIndex :: "gvalue list \<Rightarrow> nat \<Rightarrow> gvalue" where
  "GetByIndex values i = (if i < length values then values ! i else VNil)"

subsection \<open>Existing resources and their duplicates (lines 33 to 73)\<close>

text \<open>
  The body of the loop over the query result: a record whose first value is a node with a
  string \<^verbatim>\<open>_uid\<close> either enters \<open>existingResources\<close> or, when its UID is there
  already, is counted in \<open>duplicatedResources\<close>.
\<close>

fun scanRecord ::
  "(string \<times> properties) list \<times> (string \<times> int) list \<Rightarrow> gvalue list
   \<Rightarrow> (string \<times> properties) list \<times> (string \<times> int) list" where
  "scanRecord (existingResources, duplicatedResources) record =
     (case GetByIndex record 0 of
        VNode rgNode \<Rightarrow>
          (case mapIndex rgNode ''_uid'' of
             VString existingResourceUID \<Rightarrow>
               (case map_of existingResources existingResourceUID of
                  Some _ \<Rightarrow>
                    (case map_of duplicatedResources existingResourceUID of
                       None \<Rightarrow>
                         (existingResources,
                          AList.update existingResourceUID 1 duplicatedResources)
                     | Some dupeCount \<Rightarrow>
                         (existingResources,
                          AList.update existingResourceUID (dupeCount + 1) duplicatedResources))
                | None \<Rightarrow>
                    (AList.update existingResourceUID rgNode existingResources,
                     duplicatedResources))
           | _ \<Rightarrow> (existingResources, duplicatedResources))
      | _ \<Rightarrow> (existingResources, duplicatedResources))"

definition scanExisting ::
  "gvalue list list \<Rightarrow> (string \<times> properties) list \<times> (string \<times> int) list" where
  "scanExisting records = foldl scanRecord ([], []) records"

text \<open>The two query strings of the resource phase, both built by the sanitizer.\<close>

definition existingResourcesQuery :: "'s Deps \<Rightarrow> string \<Rightarrow> string" where
  "existingResourcesQuery D clusterName =
     SanitizeQuery D ''MATCH (n {cluster: '%s'}) RETURN n'' [clusterName]"

definition duplicateQuery :: "'s Deps \<Rightarrow> string \<Rightarrow> string" where
  "duplicateQuery D dupeUID = SanitizeQuery D ''MATCH (n {_uid:'%s'}) DELETE n'' [dupeUID]"

text \<open>
  Lines 33 to 59. The result pointer is used whether or not the query failed, so a nil
  result is a nil dereference in \<^verbatim>\<open>result.Next()\<close>.
\<close>

definition loadExistingResources ::
  "'s Deps \<Rightarrow> string \<Rightarrow> 's run
   \<Rightarrow> panic + ((string \<times> properties) list \<times> (string \<times> int) list) \<times> 's run" where
  "loadExistingResources D clusterName r =
     (let ((result, error), r1) =
            query D (existingResourcesQuery D clusterName) r;
          r2 = (case error of
                  Some e \<Rightarrow> (emit [EvLog (Err_GettingExistingResources clusterName)] r1)
                             \<lparr>run_err := Some e\<rparr>
                | None \<Rightarrow> r1)
      in case result of
           None \<Rightarrow> Inl NilDereference
         | Some qr \<Rightarrow> Inr (scanExisting (results qr), r2))"

text \<open>
  Lines 65 to 72: one deletion query per duplicated UID, whose failure is only logged, and
  the UID leaves \<open>existingResources\<close>.
\<close>

definition deleteDuplicate ::
  "'s Deps \<Rightarrow> (string \<times> properties) list \<times> 's run \<Rightarrow> string \<times> int
   \<Rightarrow> (string \<times> properties) list \<times> 's run" where
  "deleteDuplicate D st dupe =
     (let (existingResources, r) = st;
          (dupeUID, dupeCount) = dupe;
          ((_, delError), r1) = query D (duplicateQuery D dupeUID) r;
          r2 = (case delError of
                  Some e \<Rightarrow> emit [EvLog (Err_DeletingDuplicates dupeUID e)] r1
                | None \<Rightarrow> r1)
      in (AList.delete dupeUID existingResources, r2))"

definition removeDuplicates ::
  "'s Deps \<Rightarrow> string \<Rightarrow> (string \<times> properties) list \<times> (string \<times> int) list \<Rightarrow> 's run
   \<Rightarrow> (string \<times> properties) list \<times> 's run" where
  "removeDuplicates D clusterName maps r =
     (let (existingResources, duplicatedResources) = maps
      in if length duplicatedResources > 0
         then foldl (deleteDuplicate D)
                (existingResources,
                 emit [EvLog (Warn_DuplicateRecords clusterName
                                (int (length duplicatedResources)))] r)
                duplicatedResources
         else (existingResources, r))"

subsection \<open>The resource differ (lines 76 to 116)\<close>

definition isSlice :: "gvalue \<Rightarrow> bool" where
  "isSlice v = (case v of VSlice _ \<Rightarrow> True | _ \<Rightarrow> False)"

text \<open>\<^verbatim>\<open>reflect.DeepEqual\<close> on values is structural equality of their representation.\<close>

definition DeepEqual :: "gvalue \<Rightarrow> gvalue \<Rightarrow> bool" where
  "DeepEqual a b = (a = b)"

text \<open>
  Lines 93 to 106, the test that decides whether one encoded property makes the resource an
  update.
\<close>

definition propertyDiffers :: "Resource \<Rightarrow> properties \<Rightarrow> string \<Rightarrow> gvalue \<Rightarrow> bool" where
  "propertyDiffers newResource existingResource key value =
     (let interfaceTypeTrue = isSlice value;
          existingInterface = mapIndex existingResource key;
          existingInterfaceTypeTrue = isSlice existingInterface;
          isInterface = (interfaceTypeTrue \<and> existingInterfaceTypeTrue);
          stringValue = (if isInterface then [] else valueToString value);
          existingProperty =
            (if isInterface then [] else valueToString (mapIndex existingResource key))
      in (isInterface \<and> \<not> DeepEqual (mapIndex (Properties newResource) key) existingInterface)
         \<or> existingProperty \<noteq> stringValue)"

text \<open>The loop over the encoded properties, left at the first property that differs.\<close>

fun anyPropertyDiffers :: "Resource \<Rightarrow> properties \<Rightarrow> properties \<Rightarrow> bool" where
  "anyPropertyDiffers newResource existingResource [] = False"
| "anyPropertyDiffers newResource existingResource ((key, value) # rest) =
     (if propertyDiffers newResource existingResource key value then True
      else anyPropertyDiffers newResource existingResource rest)"

record diffState =
  existingResources :: "(string \<times> properties) list"
  resourcesToAdd :: "Resource list"
  resourcesToUpdate :: "Resource list"
  diffLog :: "event list"

definition diffResource :: "'s Deps \<Rightarrow> diffState \<Rightarrow> Resource \<Rightarrow> diffState" where
  "diffResource D st newResource =
     (case map_of (existingResources st) (UID newResource) of
        None \<Rightarrow> st\<lparr>resourcesToAdd := resourcesToAdd st @ [newResource]\<rparr>
      | Some existingResource \<Rightarrow>
          (let st1 =
             (case EncodeProperties D newResource of
                Inl encodeError \<Rightarrow>
                  st\<lparr>resourcesToUpdate := resourcesToUpdate st @ [newResource],
                     diffLog := diffLog st @ [EvLog (Warn_EncodingProperties encodeError)]\<rparr>
              | Inr newEncodedProperties \<Rightarrow>
                  if anyPropertyDiffers newResource existingResource newEncodedProperties
                  then st\<lparr>resourcesToUpdate := resourcesToUpdate st @ [newResource]\<rparr>
                  else st)
           in st1\<lparr>existingResources :=
                    AList.delete (UID newResource) (existingResources st1)\<rparr>))"

definition diffResources ::
  "'s Deps \<Rightarrow> Resource list \<Rightarrow> (string \<times> properties) list \<Rightarrow> diffState" where
  "diffResources D resources existing =
     foldl (diffResource D)
       \<lparr>existingResources = existing, resourcesToAdd = [], resourcesToUpdate = [],
        diffLog = []\<rparr>
       resources"

subsection \<open>Resource mutations (lines 120 to 153)\<close>

definition insertResources :: "'s Deps \<Rightarrow> string \<Rightarrow> Resource list \<Rightarrow> 's run \<Rightarrow> 's run" where
  "insertResources D clusterName toAdd r =
     (let (insertResponse, s') = ChunkedInsert D toAdd clusterName (run_store r);
          stats1 = (run_stats r)\<lparr>TotalAdded := SuccessfulResources insertResponse\<rparr>
      in r\<lparr>run_stats :=
             (case ConnectionError insertResponse of
                Some e \<Rightarrow> stats1
              | None \<Rightarrow>
                  if length (ResourceErrors insertResponse) \<noteq> 0
                  then stats1\<lparr>AddErrors :=
                         processSyncErrors D (ResourceErrors insertResponse) ''inserted''\<rparr>
                  else stats1),
           run_err :=
             (case ConnectionError insertResponse of Some e \<Rightarrow> Some e | None \<Rightarrow> run_err r),
           run_store := s',
           run_trace := run_trace r @ [EvChunkedInsert toAdd clusterName insertResponse]\<rparr>)"

definition updateResources :: "'s Deps \<Rightarrow> Resource list \<Rightarrow> 's run \<Rightarrow> 's run" where
  "updateResources D toUpdate r =
     (let (updateResponse, s') = ChunkedUpdate D toUpdate (run_store r);
          stats1 = (run_stats r)\<lparr>TotalUpdated := SuccessfulResources updateResponse\<rparr>
      in r\<lparr>run_stats :=
             (case ConnectionError updateResponse of
                Some e \<Rightarrow> stats1
              | None \<Rightarrow>
                  if length (ResourceErrors updateResponse) \<noteq> 0
                  then stats1\<lparr>UpdateErrors :=
                         processSyncErrors D (ResourceErrors updateResponse) ''updated''\<rparr>
                  else stats1),
           run_err :=
             (case ConnectionError updateResponse of Some e \<Rightarrow> Some e | None \<Rightarrow> run_err r),
           run_store := s',
           run_trace := run_trace r @ [EvChunkedUpdate toUpdate updateResponse]\<rparr>)"

text \<open>
  Lines 141 to 144: the UIDs to delete are read off the nodes left in the map, with an
  unchecked assertion to \<^verbatim>\<open>string\<close>.
\<close>

definition nodeUID :: "properties \<Rightarrow> panic + string" where
  "nodeUID resource =
     (case mapIndex resource ''_uid'' of VString uid \<Rightarrow> Inr uid | _ \<Rightarrow> Inl TypeAssertion)"

fun collectDeleteUIDS :: "(string \<times> properties) list \<Rightarrow> panic + string list" where
  "collectDeleteUIDS [] = Inr []"
| "collectDeleteUIDS ((k, resource) # rest) =
     (case nodeUID resource of
        Inl p \<Rightarrow> Inl p
      | Inr uid \<Rightarrow>
          (case collectDeleteUIDS rest of
             Inl p \<Rightarrow> Inl p
           | Inr deleteUIDS \<Rightarrow> Inr (uid # deleteUIDS)))"

definition deleteResources :: "'s Deps \<Rightarrow> string list \<Rightarrow> 's run \<Rightarrow> 's run" where
  "deleteResources D deleteUIDS r =
     (let (deleteResponse, s') = ChunkedDelete D deleteUIDS (run_store r);
          stats1 = (run_stats r)\<lparr>TotalDeleted := SuccessfulResources deleteResponse\<rparr>
      in r\<lparr>run_stats :=
             (case ConnectionError deleteResponse of
                Some e \<Rightarrow> stats1
              | None \<Rightarrow>
                  if length (ResourceErrors deleteResponse) \<noteq> 0
                  then stats1\<lparr>DeleteErrors :=
                         processSyncErrors D (ResourceErrors deleteResponse) ''deleted''\<rparr>
                  else stats1),
           run_err :=
             (case ConnectionError deleteResponse of Some e \<Rightarrow> Some e | None \<Rightarrow> run_err r),
           run_store := s',
           run_trace := run_trace r @ [EvChunkedDelete deleteUIDS deleteResponse]\<rparr>)"

subsection \<open>Existing edges and their duplicates (lines 159 to 206)\<close>

fun scanEdgeRecord ::
  "(string \<times> Edge) list \<times> int \<Rightarrow> gvalue list \<Rightarrow> (string \<times> Edge) list \<times> int" where
  "scanEdgeRecord (existingEdges, dupCount) e =
     (let key = getEdgeUID (valueToString (GetByIndex e 0)) (valueToString (GetByIndex e 1))
                  (valueToString (GetByIndex e 2))
      in case map_of existingEdges key of
           None \<Rightarrow>
             (AList.update key
                \<lparr>SourceUID = valueToString (GetByIndex e 0),
                 EdgeType = valueToString (GetByIndex e 1),
                 DestUID = valueToString (GetByIndex e 2)\<rparr>
                existingEdges,
              dupCount)
         | Some _ \<Rightarrow> (existingEdges, dupCount + 1))"

definition scanExistingEdges :: "gvalue list list \<Rightarrow> (string \<times> Edge) list \<times> int" where
  "scanExistingEdges records = foldl scanEdgeRecord ([], 0) records"

definition existingEdgesQuery :: "string \<Rightarrow> string" where
  "existingEdgesQuery clusterName =
     Sprintf ''MATCH (s {cluster:'%s'})-[r]->(d {cluster:'%s'}) WHERE (r._interCluster <> true) OR (r._interCluster IS NULL) RETURN s._uid, type(r), d._uid''
       [clusterName, clusterName]"

definition duplicateEdgesQuery :: "string \<Rightarrow> string" where
  "duplicateEdgesQuery clusterName =
     Sprintf ''MATCH (s {cluster:'%s'})-[r]->(d {cluster:'%s'}) WHERE (r._interCluster <> true) OR (r._interCluster IS NULL) WITH s as source, d as dest, TYPE(r) as edge, COLLECT (r) AS edges WHERE size(edges) >1 UNWIND edges[1..] AS dupedges DELETE dupedges''
       [clusterName, clusterName]"

text \<open>
  Lines 159 to 189. Both query strings of the edge phase are built by \<^verbatim>\<open>fmt.Sprintf\<close>.
  The result is read only when the query did not fail.
\<close>

definition loadExistingEdges ::
  "'s Deps \<Rightarrow> string \<Rightarrow> 's run \<Rightarrow> panic + (string \<times> Edge) list \<times> 's run" where
  "loadExistingEdges D clusterName r =
     (let r0 = intraEdges D clusterName r;
          ((currEdges, edgesError), r1) = query D (existingEdgesQuery clusterName) r0
      in case edgesError of
           Some e \<Rightarrow>
             Inr ([], (emit [EvLog (Warn_GettingExistingEdges clusterName e)] r1)
                        \<lparr>run_err := Some e\<rparr>)
         | None \<Rightarrow>
             (case currEdges of
                None \<Rightarrow> Inl NilDereference
              | Some qr \<Rightarrow> Inr (fst (scanExistingEdges (results qr)), r1)))"

text \<open>
  Lines 194 to 203. \<^verbatim>\<open>dupEdgedeleted.RelationshipsDeleted()\<close> is evaluated as an argument
  of the log call when the query did not fail.
\<close>

definition deleteDuplicateEdges :: "'s Deps \<Rightarrow> string \<Rightarrow> 's run \<Rightarrow> panic + 's run" where
  "deleteDuplicateEdges D clusterName r =
     (let ((dupEdgedeleted, delEdgesError), r1) = query D (duplicateEdgesQuery clusterName) r
      in case delEdgesError of
           Some e \<Rightarrow>
             Inr (intraEdges D clusterName
                    ((emit [EvLog (Warn_DeletingDuplicateEdges clusterName e)] r1)
                       \<lparr>run_err := Some e\<rparr>))
         | None \<Rightarrow>
             (case dupEdgedeleted of
                None \<Rightarrow> Inl NilDereference
              | Some qr \<Rightarrow> Inr (intraEdges D clusterName r1)))"

subsection \<open>The edge differ (lines 208 to 234)\<close>

record edgeDiffState =
  verifyEdges :: "(string \<times> bool) list"
  existingEdges :: "(string \<times> Edge) list"
  edgesToAdd :: "Edge list"

definition diffEdge :: "edgeDiffState \<Rightarrow> Edge \<Rightarrow> edgeDiffState" where
  "diffEdge st e =
     (let key = getEdgeUID (SourceUID e) (EdgeType e) (DestUID e);
          st1 = st\<lparr>verifyEdges := AList.update key True (verifyEdges st)\<rparr>
      in case map_of (existingEdges st1) key of
           Some _ \<Rightarrow> st1\<lparr>existingEdges := AList.delete key (existingEdges st1)\<rparr>
         | None \<Rightarrow> st1\<lparr>edgesToAdd := edgesToAdd st1 @ [e]\<rparr>)"

definition diffEdges :: "Edge list \<Rightarrow> (string \<times> Edge) list \<Rightarrow> edgeDiffState" where
  "diffEdges edges existing =
     foldl diffEdge \<lparr>verifyEdges = [], existingEdges = existing, edgesToAdd = []\<rparr> edges"

text \<open>Lines 225 to 228: what is left in the map, in the order of the range.\<close>

definition edgesToDelete :: "edgeDiffState \<Rightarrow> Edge list" where
  "edgesToDelete st = map snd (existingEdges st)"

text \<open>Lines 219 to 221 and 230 to 234: the two checks that only log.\<close>

definition edgeDiffLog :: "string \<Rightarrow> Edge list \<Rightarrow> nat \<Rightarrow> edgeDiffState \<Rightarrow> event list" where
  "edgeDiffLog clusterName edges existingEdgesMapLength st =
     (if length (verifyEdges st) \<noteq> length edges
      then [EvLog (Err_DuplicateEdgesInPayload clusterName)] else [])
     @ (let expectedEdgesAfterProcessing =
              int existingEdgesMapLength + int (length (edgesToAdd st))
              - int (length (edgesToDelete st))
        in if expectedEdgesAfterProcessing \<noteq> int (length edges)
           then [EvLog (Warn_ExpectedEdgesMismatch clusterName expectedEdgesAfterProcessing
                          (int (length edges)))]
           else [])"

subsection \<open>Edge mutations (lines 237 to 276)\<close>

definition insertEdges :: "'s Deps \<Rightarrow> string \<Rightarrow> Edge list \<Rightarrow> 's run \<Rightarrow> 's run" where
  "insertEdges D clusterName toAdd r =
     (let (insertEdgeResponse, s') = ChunkedInsertEdge D toAdd clusterName (run_store r);
          stats1 = (run_stats r)\<lparr>TotalEdgesAdded := SuccessfulResources insertEdgeResponse\<rparr>;
          r1 = r\<lparr>run_stats :=
                   (case ConnectionError insertEdgeResponse of
                      Some e \<Rightarrow> stats1
                    | None \<Rightarrow>
                        if length (ResourceErrors insertEdgeResponse) \<noteq> 0
                        then stats1\<lparr>AddEdgeErrors :=
                               processSyncErrors D (ResourceErrors insertEdgeResponse)
                                 ''inserted by edge''\<rparr>
                        else stats1),
                 run_err :=
                   (case ConnectionError insertEdgeResponse of
                      Some e \<Rightarrow> Some e | None \<Rightarrow> run_err r),
                 run_store := s',
                 run_trace :=
                   run_trace r @ [EvChunkedInsertEdge toAdd clusterName insertEdgeResponse]\<rparr>
      in if int (length toAdd) \<noteq> EdgesAdded insertEdgeResponse
         then intraEdges D clusterName r1 else r1)"

definition deleteEdges :: "'s Deps \<Rightarrow> string \<Rightarrow> Edge list \<Rightarrow> 's run \<Rightarrow> 's run" where
  "deleteEdges D clusterName toDelete r =
     (let (deleteEdgeResponse, s') = ChunkedDeleteEdge D toDelete clusterName (run_store r);
          stats1 = (run_stats r)\<lparr>TotalEdgesDeleted := SuccessfulResources deleteEdgeResponse\<rparr>;
          r1 = r\<lparr>run_stats :=
                   (case ConnectionError deleteEdgeResponse of
                      Some e \<Rightarrow> stats1
                    | None \<Rightarrow>
                        if length (ResourceErrors deleteEdgeResponse) \<noteq> 0
                        then stats1\<lparr>DeleteEdgeErrors :=
                               processSyncErrors D (ResourceErrors deleteEdgeResponse)
                                 ''removed by edge''\<rparr>
                        else stats1),
                 run_err :=
                   (case ConnectionError deleteEdgeResponse of
                      Some e \<Rightarrow> Some e | None \<Rightarrow> run_err r),
                 run_store := s',
                 run_trace :=
                   run_trace r @ [EvChunkedDeleteEdge toDelete clusterName deleteEdgeResponse]\<rparr>
      in if int (length toDelete) \<noteq> EdgesDeleted deleteEdgeResponse
         then intraEdges D clusterName r1 else r1)"

subsection \<open>The whole cycle\<close>

text \<open>
  The resource phase, lines 33 to 153, from a fresh run: the existing resources, their
  duplicates, the diff, and the three mutations, each attempted whatever the one before
  returned.
\<close>

definition resyncResources ::
  "'s Deps \<Rightarrow> string \<Rightarrow> Resource list \<Rightarrow> 's run \<Rightarrow> panic + 's run" where
  "resyncResources D clusterName resources r =
     (case loadExistingResources D clusterName r of
        Inl p \<Rightarrow> Inl p
      | Inr (maps, r1) \<Rightarrow>
          (let (existing, r2) = removeDuplicates D clusterName maps r1;
               d = diffResources D resources existing;
               r3 = emit (diffLog d) r2;
               r4 = insertResources D clusterName (resourcesToAdd d) r3;
               r5 = updateResources D (resourcesToUpdate d) r4
           in case collectDeleteUIDS (existingResources d) of
                Inl p \<Rightarrow> Inl p
              | Inr deleteUIDS \<Rightarrow> Inr (deleteResources D deleteUIDS r5)))"

text \<open>The edge phase, lines 157 to 280.\<close>

definition resyncEdges :: "'s Deps \<Rightarrow> string \<Rightarrow> Edge list \<Rightarrow> 's run \<Rightarrow> panic + 's run" where
  "resyncEdges D clusterName edges r =
     (case loadExistingEdges D clusterName r of
        Inl p \<Rightarrow> Inl p
      | Inr (existing, r1) \<Rightarrow>
          (case deleteDuplicateEdges D clusterName r1 of
             Inl p \<Rightarrow> Inl p
           | Inr r2 \<Rightarrow>
               (let existingEdgesMapLength = length existing;
                    d = diffEdges edges existing;
                    r3 = emit (edgeDiffLog clusterName edges existingEdgesMapLength d) r2;
                    r4 = insertEdges D clusterName (edgesToAdd d) r3
                in Inr (deleteEdges D clusterName (edgesToDelete d) r4))))"

definition newRun :: "'s \<Rightarrow> 's run" where
  "newRun s = \<lparr>run_stats = zeroSyncResponse, run_err = None, run_store = s, run_trace = []\<rparr>"

definition resyncCluster ::
  "'s Deps \<Rightarrow> string \<Rightarrow> Resource list \<Rightarrow> Edge list \<Rightarrow> 's \<Rightarrow> panic + 's run" where
  "resyncCluster D clusterName resources edges s =
     (case resyncResources D clusterName resources (newRun s) of
        Inl p \<Rightarrow> Inl p
      | Inr r \<Rightarrow> resyncEdges D clusterName edges r)"

section \<open>Notions used to state the results\<close>

text \<open>The identity key of an edge, as lines 212 to 214 compute it.\<close>

definition edgeKey :: "Edge \<Rightarrow> string" where
  "edgeKey e = getEdgeUID (SourceUID e) (EdgeType e) (DestUID e)"

text \<open>
  The UID a record of the resource query carries, if its first value is a node with a string
  \<^verbatim>\<open>_uid\<close> (the two checked assertions of lines 45 and 46), the node itself, and the
  number of records of a result that carry a given UID.
\<close>

definition recordUID :: "gvalue list \<Rightarrow> string option" where
  "recordUID record =
     (case GetByIndex record 0 of
        VNode rgNode \<Rightarrow> (case mapIndex rgNode ''_uid'' of VString uid \<Rightarrow> Some uid | _ \<Rightarrow> None)
      | _ \<Rightarrow> None)"

definition recordNode :: "gvalue list \<Rightarrow> properties" where
  "recordNode record = (case GetByIndex record 0 of VNode rgNode \<Rightarrow> rgNode | _ \<Rightarrow> [])"

definition occurrences :: "string \<Rightarrow> gvalue list list \<Rightarrow> nat" where
  "occurrences uid records = length (filter (\<lambda>record. recordUID record = Some uid) records)"

text \<open>What the two maps hold after the scan of a query result.\<close>

definition scanInv ::
  "gvalue list list \<Rightarrow> (string \<times> properties) list \<times> (string \<times> int) list \<Rightarrow> bool" where
  "scanInv records st =
     ((\<forall>u. (u \<in> fst ` set (fst st)) = (0 < occurrences u records))
      \<and> (\<forall>u. map_of (snd st) u =
             (if 1 < occurrences u records then Some (int (occurrences u records) - 1) else None))
      \<and> distinct (map fst (fst st)) \<and> distinct (map fst (snd st))
      \<and> (\<forall>(k, n) \<in> set (fst st). nodeUID n = Inr k))"

text \<open>The query strings of a trace, and its chunked mutation calls.\<close>

fun queriesOf :: "event list \<Rightarrow> string list" where
  "queriesOf [] = []"
| "queriesOf (EvQuery q result e # evs) = q # queriesOf evs"
| "queriesOf (ev # evs) = queriesOf evs"

fun isMutation :: "event \<Rightarrow> bool" where
  "isMutation (EvChunkedInsert a c resp) = True"
| "isMutation (EvChunkedUpdate u resp) = True"
| "isMutation (EvChunkedDelete d resp) = True"
| "isMutation (EvChunkedInsertEdge a c resp) = True"
| "isMutation (EvChunkedDeleteEdge d c resp) = True"
| "isMutation ev = False"

text \<open>The events of one duplicate deletion, given what the query returned.\<close>

definition deletionEvents ::
  "string \<Rightarrow> string \<Rightarrow> QueryResult option \<times> error option \<Rightarrow> event list" where
  "deletionEvents q uid answer =
     EvQuery q (fst answer) (snd answer)
     # (case snd answer of Some e \<Rightarrow> [EvLog (Err_DeletingDuplicates uid e)] | None \<Rightarrow> [])"

text \<open>
  Whether the differ sends a resource that is in the baseline to the update list; the error
  list and the error value that a chunked operation's response leaves behind.
\<close>

definition needsUpdate :: "'s Deps \<Rightarrow> Resource \<Rightarrow> properties \<Rightarrow> bool" where
  "needsUpdate D r stored =
     (case EncodeProperties D r of Inl _ \<Rightarrow> True | Inr enc \<Rightarrow> anyPropertyDiffers r stored enc)"

definition itemErrors ::
  "'s Deps \<Rightarrow> ChunkedOperationResult \<Rightarrow> string \<Rightarrow> SyncError list \<Rightarrow> SyncError list" where
  "itemErrors D resp verb before =
     (if ConnectionError resp = None \<and> ResourceErrors resp \<noteq> []
      then processSyncErrors D (ResourceErrors resp) verb else before)"

definition lastError :: "error option \<Rightarrow> error option \<Rightarrow> error option" where
  "lastError new before = (case new of Some e \<Rightarrow> Some e | None \<Rightarrow> before)"

text \<open>What a finished run called and asked; nothing for a run that panicked.\<close>

definition mutationCalls :: "panic + 's run \<Rightarrow> event list" where
  "mutationCalls res = (case res of Inl p \<Rightarrow> [] | Inr r \<Rightarrow> filter isMutation (run_trace r))"

definition queryStrings :: "panic + 's run \<Rightarrow> string list" where
  "queryStrings res = (case res of Inl p \<Rightarrow> [] | Inr r \<Rightarrow> queriesOf (run_trace r))"

section \<open>A scripted store, for concrete runs\<close>

text \<open>
  A store that answers the queries it receives from a script, one answer per query and an
  empty result once the script is used up; chunked operations that report every item as
  done, apart from the resource insert, whose response is a parameter; a sanitizer that
  escapes single quotes; an encoder that returns the properties as they are.
\<close>

definition escapeQuotes :: "string \<Rightarrow> string" where
  "escapeQuotes s = concat (map (\<lambda>c. if c = CHR 0x27 then [CHR 0x5C, CHR 0x27] else [c]) s)"

definition okResult :: "nat \<Rightarrow> ChunkedOperationResult" where
  "okResult n = \<lparr>ResourceErrors = [], ConnectionError = None, SuccessfulResources = int n,
                 EdgesAdded = int n, EdgesDeleted = int n\<rparr>"

definition answer :: "gvalue list list \<Rightarrow> QueryResult option \<times> error option" where
  "answer records = (Some \<lparr>results = records, RelationshipsDeleted = 0\<rparr>, None)"

definition scriptedDeps ::
  "ChunkedOperationResult \<Rightarrow> (QueryResult option \<times> error option) list Deps" where
  "scriptedDeps insertResponse =
     \<lparr>Store_Query = (\<lambda>q script. case script of [] \<Rightarrow> (answer [], []) | x # rest \<Rightarrow> (x, rest)),
      SanitizeQuery = (\<lambda>template args. Sprintf template (map escapeQuotes args)),
      EncodeProperties = (\<lambda>r. Inr (Properties r)),
      ChunkedInsert = (\<lambda>rs c s. (insertResponse, s)),
      ChunkedUpdate = (\<lambda>rs s. (okResult (length rs), s)),
      ChunkedDelete = (\<lambda>uids s. (okResult (length uids), s)),
      ChunkedInsertEdge = (\<lambda>es c s. (okResult (length es), s)),
      ChunkedDeleteEdge = (\<lambda>es c s. (okResult (length es), s)),
      computeIntraEdges = (\<lambda>c s. (0, s)),
      processSyncErrors = (\<lambda>errs verb. errs)\<rparr>"

text \<open>An insert that lost the connection after one item had been rejected.\<close>

definition brokenInsert :: ChunkedOperationResult where
  "brokenInsert = \<lparr>ResourceErrors = [(''Y'', ''rejected'')], ConnectionError = Some ''EOF'',
                    SuccessfulResources = 0, EdgesAdded = 0, EdgesDeleted = 0\<rparr>"

definition nodeRecord :: "string \<Rightarrow> properties \<Rightarrow> gvalue list" where
  "nodeRecord uid props = [VNode ((''_uid'', VString uid) # props)]"

definition edgeRecord :: "string \<Rightarrow> string \<Rightarrow> string \<Rightarrow> gvalue list" where
  "edgeRecord s t d = [VString s, VString t, VString d]"

definition mkEdge :: "string \<Rightarrow> string \<Rightarrow> string \<Rightarrow> Edge" where
  "mkEdge s t d = \<lparr>SourceUID = s, EdgeType = t, DestUID = d\<rparr>"

definition resX :: Resource where
  "resX = \<lparr>UID = ''X'', Properties = [(''status'', VString ''Ready'')]\<rparr>"

definition resY :: Resource where
  "resY = \<lparr>UID = ''Y'', Properties = []\<rparr>"

text \<open>The store holds X with another status, and Z, which the cluster no longer reports.\<close>

definition storedXZ :: "gvalue list list" where
  "storedXZ = [nodeRecord ''X'' [(''status'', VString ''NotReady'')], nodeRecord ''Z'' []]"

section \<open>Properties of the value normalizer\<close>

lemma allDigits_append: "allDigits (xs @ ys) = (allDigits xs \<and> allDigits ys)"
  by (induction xs) auto

lemma decNat_snoc: "decNat (xs @ [c]) = 10 * decNat xs + digitVal c"
  by (simp add: decNat_def)

lemma digit_char: "(d::nat) < 10 \<Longrightarrow> isDigit (char_of (48 + d)) \<and> digitVal (char_of (48 + d)) = d"
  by (simp add: isDigit_def digitVal_def)

lemma digit_not_minus: "(d::nat) < 10 \<Longrightarrow> char_of (48 + d) \<noteq> CHR ''-''"
proof
  assume d: "d < 10" and eq: "char_of (48 + d) = CHR ''-''"
  have "of_char (char_of (48 + d)) = (of_char CHR ''-'' :: nat)"
    using eq by simp
  with d show False by simp
qed

lemma fmtNat_digits: "allDigits (fmtNat n) \<and> fmtNat n \<noteq> [] \<and> decNat (fmtNat n) = n"
proof (induction n rule: fmtNat.induct)
  case (1 n)
  show ?case
  proof (cases "n < 10")
    case True
    then show ?thesis
      using digit_char [of n] by (simp add: fmtNat.simps [of n] decNat_def)
  next
    case False
    have m: "n mod 10 < 10" by simp
    from False 1 have ih: "allDigits (fmtNat (n div 10))" "decNat (fmtNat (n div 10)) = n div 10"
      by simp_all
    from False show ?thesis
      using digit_char [OF m] ih
      by (simp add: fmtNat.simps [of n] allDigits_append decNat_snoc)
  qed
qed

lemma fmtNat_hd_not_minus: "hd (fmtNat n) \<noteq> CHR ''-''"
proof (induction n rule: fmtNat.induct)
  case (1 n)
  show ?case
  proof (cases "n < 10")
    case True
    then show ?thesis
      using digit_not_minus [of n] by (simp add: fmtNat.simps [of n])
  next
    case False
    with 1 have "hd (fmtNat (n div 10)) \<noteq> CHR ''-''" by simp
    moreover have "fmtNat (n div 10) \<noteq> []" using fmtNat_digits by blast
    ultimately show ?thesis using False by (simp add: fmtNat.simps [of n])
  qed
qed

lemma decimalValue_FormatInt: "decimalValue (FormatInt i) = Some i"
proof (cases "i < 0")
  case True
  then show ?thesis
    using fmtNat_digits [of "nat (- i)"] by (simp add: FormatInt_def)
next
  case False
  obtain c cs where cs: "fmtNat (nat i) = c # cs"
    using fmtNat_digits [of "nat i"] by (cases "fmtNat (nat i)") auto
  have "c \<noteq> CHR ''-''" using fmtNat_hd_not_minus [of "nat i"] cs by simp
  moreover have "allDigits (c # cs)" "decNat (c # cs) = nat i"
    using fmtNat_digits [of "nat i"] cs by simp_all
  ultimately show ?thesis using False cs by (simp add: FormatInt_def)
qed

lemma FormatInt_42: "FormatInt 42 = ''42''"
  by code_simp

text \<open>
  Claim C9. \<open>valueToString\<close> renders an \<^verbatim>\<open>int64\<close> and an \<^verbatim>\<open>int\<close> as the base-10
  numeral of its signed value (reading the result back as a decimal numeral gives the number),
  so \<^verbatim>\<open>int64(42)\<close> and the string \<^verbatim>\<open>"42"\<close> normalize to the same string; a string is
  returned unchanged; a value of any other type gives the empty string. The function is total:
  it has no failing branch.
\<close>

theorem valueToString_normalizes:
  "decimalValue (valueToString (VInt64 w)) = Some (sint w)
   \<and> decimalValue (valueToString (VInt w)) = Some (sint w)
   \<and> valueToString (VInt64 42) = valueToString (VString ''42'')
   \<and> valueToString (VInt64 42) = ''42''
   \<and> valueToString (VString s) = s
   \<and> valueToString (VSlice xs) = []
   \<and> valueToString (VNode ps) = []
   \<and> valueToString VNil = []
   \<and> valueToString (VOther t) = []"
  by (simp add: decimalValue_FormatInt FormatInt_42)

section \<open>The edge differ\<close>

lemma map_of_None_iff: "(map_of al k = None) = (k \<notin> fst ` set al)"
  by (simp add: map_of_eq_None_iff)

lemma diffEdge_existing:
  "existingEdges (diffEdge st e) = AList.delete (edgeKey e) (existingEdges st)"
  by (auto simp: diffEdge_def edgeKey_def Let_def map_of_None_iff split: option.splits)

lemma diffEdge_toAdd:
  "edgesToAdd (diffEdge st e) =
     (if edgeKey e \<in> fst ` set (existingEdges st) then edgesToAdd st else edgesToAdd st @ [e])"
proof (cases "map_of (existingEdges st) (edgeKey e)")
  case None
  then have "edgeKey e \<notin> fst ` set (existingEdges st)" by (simp add: map_of_None_iff)
  with None show ?thesis by (simp add: diffEdge_def edgeKey_def Let_def)
next
  case (Some a)
  then have "edgeKey e \<in> fst ` set (existingEdges st)"
    using map_of_None_iff [of "existingEdges st" "edgeKey e"] by simp
  with Some show ?thesis by (simp add: diffEdge_def edgeKey_def Let_def)
qed

lemma diffEdge_verify:
  "verifyEdges (diffEdge st e) = AList.update (edgeKey e) True (verifyEdges st)"
  by (auto simp: diffEdge_def edgeKey_def Let_def split: option.splits)

lemma delete_filter_commute:
  "AList.delete k (filter (\<lambda>(k', _). P k') al) = filter (\<lambda>(k', _). P k') (AList.delete k al)"
  by (induction al) (auto simp: AList.delete_eq)

lemma fold_existing:
  "existingEdges (foldl diffEdge st es) =
     filter (\<lambda>(k, _). k \<notin> edgeKey ` set es) (existingEdges st)"
proof (induction es arbitrary: st)
  case Nil
  show ?case by simp
next
  case (Cons e es)
  show ?case
    by (simp add: Cons diffEdge_existing AList.delete_eq) (rule filter_cong, auto)
qed

lemma dom_delete: "fst ` set (AList.delete k al) = fst ` set al - {k}"
  by (induction al) (auto simp: AList.delete_eq)

lemma fold_toAdd_key:
  "filter (\<lambda>e. edgeKey e = k) (edgesToAdd (foldl diffEdge st es)) =
     filter (\<lambda>e. edgeKey e = k) (edgesToAdd st)
     @ (if k \<in> fst ` set (existingEdges st) then tl (filter (\<lambda>e. edgeKey e = k) es)
        else filter (\<lambda>e. edgeKey e = k) es)"
proof (induction es arbitrary: st)
  case Nil
  show ?case by simp
next
  case (Cons e es)
  show ?case
    by (auto simp: Cons diffEdge_existing diffEdge_toAdd dom_delete)
qed

lemma fold_toAdd_distinct:
  "distinct (map edgeKey es) \<Longrightarrow>
   edgesToAdd (foldl diffEdge st es) =
     edgesToAdd st @ filter (\<lambda>e. edgeKey e \<notin> fst ` set (existingEdges st)) es"
proof (induction es arbitrary: st)
  case Nil
  show ?case by simp
next
  case (Cons e es)
  have "filter (\<lambda>x. edgeKey x \<notin> fst ` set (existingEdges st) - {edgeKey e}) es
      = filter (\<lambda>x. edgeKey x \<notin> fst ` set (existingEdges st)) es"
    using Cons.prems by (intro filter_cong) (auto simp: image_iff)
  with Cons show ?case
    by (auto simp: diffEdge_existing diffEdge_toAdd dom_delete)
qed

lemma fold_verify_dom:
  "fst ` set (verifyEdges (foldl diffEdge st es)) = fst ` set (verifyEdges st) \<union> edgeKey ` set es"
  by (induction es arbitrary: st) (auto simp: diffEdge_verify AList.dom_update)

lemma fold_verify_distinct:
  "distinct (map fst (verifyEdges st)) \<Longrightarrow> distinct (map fst (verifyEdges (foldl diffEdge st es)))"
  by (induction es arbitrary: st) (auto simp: diffEdge_verify AList.distinct_update)

lemma verify_length:
  "length (verifyEdges (diffEdges es B)) = card (edgeKey ` set es)"
proof -
  let ?v = "verifyEdges (diffEdges es B)"
  have d: "distinct (map fst ?v)"
    unfolding diffEdges_def by (rule fold_verify_distinct) simp
  have "fst ` set ?v = edgeKey ` set es"
    unfolding diffEdges_def by (simp add: fold_verify_dom)
  then have "card (set (map fst ?v)) = card (edgeKey ` set es)" by simp
  moreover have "card (set (map fst ?v)) = length (map fst ?v)"
    using d by (rule distinct_card)
  ultimately show ?thesis by simp
qed

lemma verify_length_neq:
  "(length (verifyEdges (diffEdges es B)) \<noteq> length es) = (\<not> distinct (map edgeKey es))"
proof -
  have "card (edgeKey ` set es) = card (set (map edgeKey es))" by simp
  then show ?thesis
    using card_distinct [of "map edgeKey es"] distinct_card [of "map edgeKey es"]
    by (auto simp: verify_length simp del: set_map)
qed

section \<open>The scan of the existing resources\<close>

lemma scanRecord_None: "recordUID record = None \<Longrightarrow> scanRecord st record = st"
  by (cases st) (auto simp: recordUID_def split: gvalue.splits)

lemma scanRecord_Some:
  "recordUID record = Some u \<Longrightarrow>
   scanRecord (ex, dup) record =
     (if u \<in> fst ` set ex
      then (ex, AList.update u (case map_of dup u of None \<Rightarrow> 1 | Some c \<Rightarrow> c + 1) dup)
      else (AList.update u (recordNode record) ex, dup))"
proof -
  assume a: "recordUID record = Some u"
  then obtain rgNode where n: "GetByIndex record 0 = VNode rgNode"
    by (auto simp: recordUID_def split: gvalue.splits)
  with a have uid: "mapIndex rgNode ''_uid'' = VString u"
    by (auto simp: recordUID_def split: gvalue.splits)
  show ?thesis
  proof (cases "map_of ex u")
    case None
    then have "u \<notin> fst ` set ex" by (simp add: map_of_None_iff)
    with None n uid show ?thesis by (simp add: recordNode_def)
  next
    case (Some a)
    then have "u \<in> fst ` set ex" using map_of_None_iff [of ex u] by simp
    with Some n uid show ?thesis by (simp split: option.splits)
  qed
qed

declare scanRecord.simps [simp del]

lemma recordUID_nodeUID: "recordUID record = Some u \<Longrightarrow> nodeUID (recordNode record) = Inr u"
  by (auto simp: recordUID_def recordNode_def nodeUID_def split: gvalue.splits)

lemma set_update_subset: "set (AList.update k v al) \<subseteq> insert (k, v) (set al)"
  by (induction al) auto

lemma scanInv_step:
  assumes "scanInv records st"
  shows "scanInv (records @ [record]) (scanRecord st record)"
proof (cases "recordUID record")
  case None
  then have "occurrences u (records @ [record]) = occurrences u records" for u
    by (simp add: occurrences_def)
  with None assms show ?thesis by (simp add: scanInv_def scanRecord_None)
next
  case (Some u)
  obtain ex dup where st: "st = (ex, dup)" by (cases st)
  have occ: "occurrences v (records @ [record]) =
               (if v = u then Suc (occurrences v records) else occurrences v records)" for v
    using Some by (auto simp: occurrences_def)
  show ?thesis
  proof (cases "u \<in> fst ` set ex")
    case True
    then have pos: "0 < occurrences u records" using assms st by (simp add: scanInv_def)
    have step: "scanRecord st record =
                  (ex, AList.update u (case map_of dup u of None \<Rightarrow> 1 | Some c \<Rightarrow> c + 1) dup)"
      using Some True st by (simp add: scanRecord_Some)
    have m: "map_of dup u =
               (if 1 < occurrences u records then Some (int (occurrences u records) - 1) else None)"
      using assms st by (simp add: scanInv_def)
    show ?thesis
      unfolding scanInv_def step
      using assms st pos m
      by (auto simp: scanInv_def occ AList.update_conv' AList.distinct_update)
  next
    case False
    then have zero: "occurrences u records = 0" using assms st by (simp add: scanInv_def)
    have step: "scanRecord st record = (AList.update u (recordNode record) ex, dup)"
      using Some False st by (simp add: scanRecord_Some)
    have nodes: "\<forall>(k, n) \<in> set (AList.update u (recordNode record) ex). nodeUID n = Inr k"
      using set_update_subset [of u "recordNode record" ex] assms st recordUID_nodeUID [OF Some]
      by (auto simp: scanInv_def)
    show ?thesis
      unfolding scanInv_def step
      using assms st zero nodes
      by (auto simp: scanInv_def occ AList.dom_update AList.distinct_update)
  qed
qed

lemma scanInv_scanExisting: "scanInv records (scanExisting records)"
proof (induction records rule: rev_induct)
  case Nil
  show ?case by (simp add: scanInv_def scanExisting_def occurrences_def)
next
  case (snoc x records)
  then show ?case using scanInv_step [of records "scanExisting records" x]
    by (simp add: scanExisting_def)
qed

section \<open>Removing duplicated resources\<close>

lemma queriesOf_append: "queriesOf (xs @ ys) = queriesOf xs @ queriesOf ys"
  by (induction xs rule: queriesOf.induct) auto

lemma query_run:
  "run_stats (snd (query D q r)) = run_stats r"
  "run_err (snd (query D q r)) = run_err r"
  "run_trace (snd (query D q r)) =
     run_trace r @ [EvQuery q (fst (fst (Store_Query D q (run_store r))))
                              (snd (fst (Store_Query D q (run_store r))))]"
  "fst (query D q r) = fst (Store_Query D q (run_store r))"
  by (simp_all add: query_def split_def Let_def)

lemma emit_run:
  "run_stats (emit evs r) = run_stats r"
  "run_err (emit evs r) = run_err r"
  "run_store (emit evs r) = run_store r"
  "run_trace (emit evs r) = run_trace r @ evs"
  by (simp_all add: emit_def)

lemma deleteDuplicate_run:
  "fst (deleteDuplicate D (ex, r) (u, n)) = AList.delete u ex"
  "run_stats (snd (deleteDuplicate D (ex, r) (u, n))) = run_stats r"
  "run_err (snd (deleteDuplicate D (ex, r) (u, n))) = run_err r"
  "run_trace (snd (deleteDuplicate D (ex, r) (u, n))) =
     run_trace r @ deletionEvents (duplicateQuery D u) u
                     (fst (Store_Query D (duplicateQuery D u) (run_store r)))"
  by (auto simp: deleteDuplicate_def duplicateQuery_def deletionEvents_def split_def Let_def
        query_run emit_run split: option.splits)

lemma deleteDuplicates_fold:
  "\<exists>answers. length answers = length dups
     \<and> fst (foldl (deleteDuplicate D) (ex, r) dups) = filter (\<lambda>(k, _). k \<notin> fst ` set dups) ex
     \<and> run_stats (snd (foldl (deleteDuplicate D) (ex, r) dups)) = run_stats r
     \<and> run_err (snd (foldl (deleteDuplicate D) (ex, r) dups)) = run_err r
     \<and> run_trace (snd (foldl (deleteDuplicate D) (ex, r) dups)) =
         run_trace r @ concat (map (\<lambda>(u, a). deletionEvents (duplicateQuery D u) u a)
                                 (zip (map fst dups) answers))"
proof (induction dups arbitrary: ex r)
  case Nil
  show ?case by simp
next
  case (Cons d dups)
  obtain u n where d: "d = (u, n)" by (cases d)
  obtain ex1 r1 where step: "deleteDuplicate D (ex, r) (u, n) = (ex1, r1)"
    by (cases "deleteDuplicate D (ex, r) (u, n)")
  let ?a = "fst (Store_Query D (duplicateQuery D u) (run_store r))"
  from step have s1: "ex1 = AList.delete u ex" "run_stats r1 = run_stats r" "run_err r1 = run_err r"
    "run_trace r1 = run_trace r @ deletionEvents (duplicateQuery D u) u ?a"
    using deleteDuplicate_run [of D ex r u n] by simp_all
  from Cons [of ex1 r1] obtain answers where
    a: "length answers = length dups"
    and f: "fst (foldl (deleteDuplicate D) (ex1, r1) dups) = filter (\<lambda>(k, _). k \<notin> fst ` set dups) ex1"
    and st: "run_stats (snd (foldl (deleteDuplicate D) (ex1, r1) dups)) = run_stats r1"
    and er: "run_err (snd (foldl (deleteDuplicate D) (ex1, r1) dups)) = run_err r1"
    and tr: "run_trace (snd (foldl (deleteDuplicate D) (ex1, r1) dups)) =
         run_trace r1 @ concat (map (\<lambda>(u, a). deletionEvents (duplicateQuery D u) u a)
                                 (zip (map fst dups) answers))"
    by blast
  have flt: "filter (\<lambda>(k, _). k \<notin> fst ` set dups) (AList.delete u ex)
           = filter (\<lambda>(k, _). k \<notin> fst ` set (d # dups)) ex"
    unfolding AList.delete_eq d by (simp) (rule filter_cong, auto)
  show ?case
    apply (rule exI [of _ "?a # answers"])
    using a f st er tr s1 flt by (simp add: d step)
qed

lemma removeDuplicates_run:
  "\<exists>answers. length answers = length dup
     \<and> fst (removeDuplicates D c (ex, dup) r) = filter (\<lambda>(k, _). k \<notin> fst ` set dup) ex
     \<and> run_stats (snd (removeDuplicates D c (ex, dup) r)) = run_stats r
     \<and> run_err (snd (removeDuplicates D c (ex, dup) r)) = run_err r
     \<and> run_trace (snd (removeDuplicates D c (ex, dup) r)) =
         run_trace r
         @ (if dup = [] then [] else [EvLog (Warn_DuplicateRecords c (int (length dup)))])
         @ concat (map (\<lambda>(u, a). deletionEvents (duplicateQuery D u) u a)
                     (zip (map fst dup) answers))"
proof (cases "dup = []")
  case True
  then show ?thesis by (simp add: removeDuplicates_def)
next
  case False
  let ?r = "emit [EvLog (Warn_DuplicateRecords c (int (length dup)))] r"
  from deleteDuplicates_fold [of dup D ex ?r] False show ?thesis
    by (simp add: removeDuplicates_def emit_run)
qed

lemma removeDuplicates_fst:
  "fst (removeDuplicates D c (ex, dup) r) = filter (\<lambda>(k, _). k \<notin> fst ` set dup) ex"
  using removeDuplicates_run [of dup D c ex r] by blast

section \<open>The resource differ\<close>

lemma propertyDiffers_iff:
  "propertyDiffers r stored k v =
     (if isSlice v \<and> isSlice (mapIndex stored k)
      then mapIndex (Properties r) k \<noteq> mapIndex stored k
      else valueToString v \<noteq> valueToString (mapIndex stored k))"
  by (auto simp: propertyDiffers_def DeepEqual_def Let_def)

lemma anyPropertyDiffers_iff:
  "anyPropertyDiffers r stored enc = (\<exists>(k, v) \<in> set enc. propertyDiffers r stored k v)"
  by (induction enc) auto

lemma diffResource_existing:
  "existingResources (diffResource D st r) = AList.delete (UID r) (existingResources st)"
proof (cases "map_of (existingResources st) (UID r)")
  case None
  then have "UID r \<notin> fst ` set (existingResources st)" by (simp add: map_of_None_iff)
  with None show ?thesis by (simp add: diffResource_def)
next
  case (Some a)
  then show ?thesis
    by (simp add: diffResource_def Let_def split: sum.splits)
qed

lemma diffResource_toAdd:
  "resourcesToAdd (diffResource D st r) =
     (if UID r \<in> fst ` set (existingResources st) then resourcesToAdd st
      else resourcesToAdd st @ [r])"
proof (cases "map_of (existingResources st) (UID r)")
  case None
  then have "UID r \<notin> fst ` set (existingResources st)" by (simp add: map_of_None_iff)
  with None show ?thesis by (simp add: diffResource_def)
next
  case (Some a)
  then have "UID r \<in> fst ` set (existingResources st)"
    using map_of_None_iff [of "existingResources st" "UID r"] by simp
  with Some show ?thesis
    by (simp add: diffResource_def Let_def split: sum.splits)
qed

lemma diffResource_toUpdate:
  "resourcesToUpdate (diffResource D st r) =
     (case map_of (existingResources st) (UID r) of
        None \<Rightarrow> resourcesToUpdate st
      | Some stored \<Rightarrow>
          if needsUpdate D r stored then resourcesToUpdate st @ [r] else resourcesToUpdate st)"
  by (simp add: diffResource_def needsUpdate_def Let_def split: option.splits sum.splits)

lemma foldres_existing:
  "existingResources (foldl (diffResource D) st rs) =
     filter (\<lambda>(k, _). k \<notin> UID ` set rs) (existingResources st)"
proof (induction rs arbitrary: st)
  case Nil
  show ?case by simp
next
  case (Cons r rs)
  show ?case
    by (simp add: Cons diffResource_existing AList.delete_eq) (rule filter_cong, auto)
qed

lemma foldres_toAdd:
  "distinct (map UID rs) \<Longrightarrow>
   resourcesToAdd (foldl (diffResource D) st rs) =
     resourcesToAdd st @ filter (\<lambda>r. UID r \<notin> fst ` set (existingResources st)) rs"
proof (induction rs arbitrary: st)
  case Nil
  show ?case by simp
next
  case (Cons r rs)
  have "filter (\<lambda>x. UID x \<notin> fst ` set (existingResources st) - {UID r}) rs
      = filter (\<lambda>x. UID x \<notin> fst ` set (existingResources st)) rs"
    using Cons.prems by (intro filter_cong) (auto simp: image_iff)
  with Cons show ?case
    by (auto simp: diffResource_existing diffResource_toAdd dom_delete)
qed

lemma foldres_toUpdate:
  "distinct (map UID rs) \<Longrightarrow>
   resourcesToUpdate (foldl (diffResource D) st rs) =
     resourcesToUpdate st
     @ filter (\<lambda>r. case map_of (existingResources st) (UID r) of
                     None \<Rightarrow> False | Some stored \<Rightarrow> needsUpdate D r stored) rs"
proof (induction rs arbitrary: st)
  case Nil
  show ?case by simp
next
  case (Cons r rs)
  have "filter (\<lambda>x. case map_of (AList.delete (UID r) (existingResources st)) (UID x) of
                      None \<Rightarrow> False | Some stored \<Rightarrow> needsUpdate D x stored) rs
      = filter (\<lambda>x. case map_of (existingResources st) (UID x) of
                      None \<Rightarrow> False | Some stored \<Rightarrow> needsUpdate D x stored) rs"
    using Cons.prems by (intro filter_cong) (auto simp: image_iff AList.delete_conv')
  with Cons show ?case
    by (auto simp: diffResource_existing diffResource_toUpdate split: option.splits)
qed

lemma foldres_toAdd_mono:
  "set (resourcesToAdd st) \<subseteq> set (resourcesToAdd (foldl (diffResource D) st rs))"
proof (induction rs arbitrary: st)
  case Nil
  show ?case by simp
next
  case (Cons x rs)
  have "set (resourcesToAdd st) \<subseteq> set (resourcesToAdd (diffResource D st x))"
    by (auto simp: diffResource_toAdd)
  also have "\<dots> \<subseteq> set (resourcesToAdd (foldl (diffResource D) (diffResource D st x) rs))"
    by (rule Cons)
  finally show ?case by simp
qed

lemma foldres_added_absent:
  "r \<in> set rs \<Longrightarrow> UID r \<notin> fst ` set (existingResources st) \<Longrightarrow>
   r \<in> set (resourcesToAdd (foldl (diffResource D) st rs))"
proof (induction rs arbitrary: st)
  case Nil
  then show ?case by simp
next
  case (Cons x rs)
  show ?case
  proof (cases "x = r")
    case True
    then have "r \<in> set (resourcesToAdd (diffResource D st x))"
      using Cons.prems by (simp add: diffResource_toAdd)
    then show ?thesis using foldres_toAdd_mono [of "diffResource D st x" D rs] by auto
  next
    case False
    with Cons.prems have "r \<in> set rs" by simp
    moreover have "UID r \<notin> fst ` set (existingResources (diffResource D st x))"
      using Cons.prems by (simp add: diffResource_existing dom_delete)
    ultimately show ?thesis using Cons.IH by simp
  qed
qed

lemma collectDeleteUIDS_keys:
  "(\<forall>(k, n) \<in> set al. nodeUID n = Inr k) \<Longrightarrow> collectDeleteUIDS al = Inr (map fst al)"
  by (induction al) auto

section \<open>The chunked mutations\<close>

lemma intraEdges_run:
  "run_stats (intraEdges D c r) = run_stats r"
  "run_err (intraEdges D c r) = run_err r"
  "filter isMutation (run_trace (intraEdges D c r)) = filter isMutation (run_trace r)"
  "queriesOf (run_trace (intraEdges D c r)) = queriesOf (run_trace r)"
  by (simp_all add: intraEdges_def split_def Let_def queriesOf_append)

lemma insertResources_run:
  "\<exists>resp. run_trace (insertResources D c a r) = run_trace r @ [EvChunkedInsert a c resp]
     \<and> run_stats (insertResources D c a r) =
         (run_stats r)\<lparr>TotalAdded := SuccessfulResources resp,
                       AddErrors := itemErrors D resp ''inserted'' (AddErrors (run_stats r))\<rparr>
     \<and> run_err (insertResources D c a r) = lastError (ConnectionError resp) (run_err r)"
  by (rule exI [of _ "fst (ChunkedInsert D a c (run_store r))"])
     (simp add: insertResources_def split_def Let_def itemErrors_def lastError_def
        split: option.splits)

lemma updateResources_run:
  "\<exists>resp. run_trace (updateResources D u r) = run_trace r @ [EvChunkedUpdate u resp]
     \<and> run_stats (updateResources D u r) =
         (run_stats r)\<lparr>TotalUpdated := SuccessfulResources resp,
                       UpdateErrors := itemErrors D resp ''updated'' (UpdateErrors (run_stats r))\<rparr>
     \<and> run_err (updateResources D u r) = lastError (ConnectionError resp) (run_err r)"
  by (rule exI [of _ "fst (ChunkedUpdate D u (run_store r))"])
     (simp add: updateResources_def split_def Let_def itemErrors_def lastError_def
        split: option.splits)

lemma deleteResources_run:
  "\<exists>resp. run_trace (deleteResources D d r) = run_trace r @ [EvChunkedDelete d resp]
     \<and> run_stats (deleteResources D d r) =
         (run_stats r)\<lparr>TotalDeleted := SuccessfulResources resp,
                       DeleteErrors := itemErrors D resp ''deleted'' (DeleteErrors (run_stats r))\<rparr>
     \<and> run_err (deleteResources D d r) = lastError (ConnectionError resp) (run_err r)"
  by (rule exI [of _ "fst (ChunkedDelete D d (run_store r))"])
     (simp add: deleteResources_def split_def Let_def itemErrors_def lastError_def
        split: option.splits)

lemma insertEdges_run:
  "\<exists>resp. filter isMutation (run_trace (insertEdges D c a r)) =
            filter isMutation (run_trace r) @ [EvChunkedInsertEdge a c resp]
     \<and> queriesOf (run_trace (insertEdges D c a r)) = queriesOf (run_trace r)
     \<and> run_stats (insertEdges D c a r) =
         (run_stats r)\<lparr>TotalEdgesAdded := SuccessfulResources resp,
                       AddEdgeErrors :=
                         itemErrors D resp ''inserted by edge'' (AddEdgeErrors (run_stats r))\<rparr>
     \<and> run_err (insertEdges D c a r) = lastError (ConnectionError resp) (run_err r)"
  by (rule exI [of _ "fst (ChunkedInsertEdge D a c (run_store r))"])
     (simp add: insertEdges_def split_def Let_def itemErrors_def lastError_def intraEdges_run
        queriesOf_append split: option.splits)

lemma deleteEdges_run:
  "\<exists>resp. filter isMutation (run_trace (deleteEdges D c d r)) =
            filter isMutation (run_trace r) @ [EvChunkedDeleteEdge d c resp]
     \<and> queriesOf (run_trace (deleteEdges D c d r)) = queriesOf (run_trace r)
     \<and> run_stats (deleteEdges D c d r) =
         (run_stats r)\<lparr>TotalEdgesDeleted := SuccessfulResources resp,
                       DeleteEdgeErrors :=
                         itemErrors D resp ''removed by edge'' (DeleteEdgeErrors (run_stats r))\<rparr>
     \<and> run_err (deleteEdges D c d r) = lastError (ConnectionError resp) (run_err r)"
  by (rule exI [of _ "fst (ChunkedDeleteEdge D d c (run_store r))"])
     (simp add: deleteEdges_def split_def Let_def itemErrors_def lastError_def intraEdges_run
        queriesOf_append split: option.splits)

section \<open>Loading the baseline, and what the logs leave out\<close>

lemma loadExistingResources_Inr:
  assumes "loadExistingResources D c r0 = Inr (maps, r1)"
  shows "\<exists>qr e. fst (Store_Query D (existingResourcesQuery D c) (run_store r0)) = (Some qr, e)
           \<and> maps = scanExisting (results qr)
           \<and> run_stats r1 = run_stats r0
           \<and> run_err r1 = (case e of Some x \<Rightarrow> Some x | None \<Rightarrow> run_err r0)
           \<and> run_trace r1 =
               run_trace r0 @ EvQuery (existingResourcesQuery D c) (Some qr) e
                 # (case e of Some x \<Rightarrow> [EvLog (Err_GettingExistingResources c)] | None \<Rightarrow> [])"
proof -
  let ?q = "existingResourcesQuery D c"
  obtain res e where a: "fst (Store_Query D ?q (run_store r0)) = (res, e)"
    by (cases "fst (Store_Query D ?q (run_store r0))")
  then have q: "fst (query D ?q r0) = (res, e)" by (simp add: query_run)
  from assms q obtain qr where r: "res = Some qr"
    by (cases res)
       (auto simp: loadExistingResources_def existingResourcesQuery_def split_def Let_def)
  from assms q r a show ?thesis
    by (auto simp: loadExistingResources_def existingResourcesQuery_def split_def Let_def
          query_run emit_run split: option.splits)
qed

lemma loadExistingResources_nil:
  "fst (fst (Store_Query D (existingResourcesQuery D c) (run_store r0))) = None \<Longrightarrow>
   loadExistingResources D c r0 = Inl NilDereference"
  by (simp add: loadExistingResources_def existingResourcesQuery_def split_def Let_def query_run)

lemma loadExistingResources_total:
  "fst (fst (Store_Query D (existingResourcesQuery D c) (run_store r0))) \<noteq> None \<Longrightarrow>
   \<exists>maps r1. loadExistingResources D c r0 = Inr (maps, r1)"
  by (auto simp: loadExistingResources_def existingResourcesQuery_def split_def Let_def query_run
        split: option.splits)

lemma deletionEvents_plain:
  "filter isMutation (deletionEvents q u a) = []"
  "queriesOf (deletionEvents q u a) = [q]"
  by (simp_all add: deletionEvents_def split: option.splits)

lemma deletion_trace_plain:
  "length answers = length us \<Longrightarrow>
   filter isMutation (concat (map (\<lambda>(u, a). deletionEvents (duplicateQuery D u) u a)
                               (zip us answers))) = []
   \<and> queriesOf (concat (map (\<lambda>(u, a). deletionEvents (duplicateQuery D u) u a)
                          (zip us answers))) = map (duplicateQuery D) us"
proof (induction us arbitrary: answers)
  case Nil
  show ?case by simp
next
  case (Cons u us)
  then obtain a as where "answers = a # as" by (cases answers) auto
  with Cons show ?case by (simp add: deletionEvents_plain queriesOf_append)
qed

lemma diffResource_log:
  "\<exists>ws. diffLog (diffResource D st r) = diffLog st @ map EvLog ws"
proof (cases "map_of (existingResources st) (UID r)")
  case None
  then show ?thesis by (simp add: diffResource_def)
next
  case (Some stored)
  show ?thesis
  proof (cases "EncodeProperties D r")
    case (Inl e)
    with Some have "diffLog (diffResource D st r) = diffLog st @ map EvLog [Warn_EncodingProperties e]"
      by (simp add: diffResource_def Let_def)
    then show ?thesis by blast
  next
    case (Inr enc)
    with Some have "diffLog (diffResource D st r) = diffLog st @ map EvLog []"
      by (simp add: diffResource_def Let_def)
    then show ?thesis by blast
  qed
qed

lemma foldres_log:
  "\<exists>ws. diffLog (foldl (diffResource D) st rs) = diffLog st @ map EvLog ws"
proof (induction rs arbitrary: st)
  case Nil
  show ?case by (rule exI [of _ "[]"]) simp
next
  case (Cons r rs)
  obtain ws where a: "diffLog (diffResource D st r) = diffLog st @ map EvLog ws"
    using diffResource_log by blast
  obtain ws' where "diffLog (foldl (diffResource D) (diffResource D st r) rs)
                      = diffLog (diffResource D st r) @ map EvLog ws'"
    using Cons by blast
  with a have "diffLog (foldl (diffResource D) st (r # rs)) = diffLog st @ map EvLog (ws @ ws')"
    by simp
  then show ?case by blast
qed

lemma logs_plain: "filter isMutation (map EvLog ws) = [] \<and> queriesOf (map EvLog ws) = []"
  by (induction ws) auto

lemma diffResources_log_plain:
  "filter isMutation (diffLog (diffResources D rs B)) = []
   \<and> queriesOf (diffLog (diffResources D rs B)) = []"
proof -
  let ?st = "\<lparr>existingResources = B, resourcesToAdd = [], resourcesToUpdate = [],
              diffLog = []\<rparr>"
  obtain ws where "diffLog (foldl (diffResource D) ?st rs) = diffLog ?st @ map EvLog ws"
    using foldres_log [of D ?st rs] by blast
  then have "diffLog (diffResources D rs B) = map EvLog ws"
    by (simp add: diffResources_def)
  then show ?thesis by (simp add: logs_plain)
qed

section \<open>The two phases of a cycle\<close>

lemma loadExistingEdges_Inr:
  assumes "loadExistingEdges D c r = Inr (B, r1)"
  shows "\<exists>res e. fst (Store_Query D (existingEdgesQuery c) (run_store (intraEdges D c r))) = (res, e)
           \<and> B = (case e of Some x \<Rightarrow> []
                   | None \<Rightarrow> (case res of Some qr \<Rightarrow> fst (scanExistingEdges (results qr))
                               | None \<Rightarrow> []))
           \<and> run_stats r1 = run_stats r
           \<and> run_err r1 = lastError e (run_err r)
           \<and> filter isMutation (run_trace r1) = filter isMutation (run_trace r)
           \<and> queriesOf (run_trace r1) = queriesOf (run_trace r) @ [existingEdgesQuery c]"
proof -
  let ?r0 = "intraEdges D c r"
  obtain res e where a: "fst (Store_Query D (existingEdgesQuery c) (run_store ?r0)) = (res, e)"
    by (cases "fst (Store_Query D (existingEdgesQuery c) (run_store ?r0))")
  then have q: "fst (query D (existingEdgesQuery c) ?r0) = (res, e)" by (simp add: query_run)
  from assms q a show ?thesis
    by (auto simp: loadExistingEdges_def split_def Let_def query_run emit_run intraEdges_run
          lastError_def queriesOf_append split: option.splits)
qed

lemma loadExistingEdges_total:
  assumes "\<And>q s. snd (fst (Store_Query D q s)) = None \<Longrightarrow> fst (fst (Store_Query D q s)) \<noteq> None"
  shows "\<exists>B r1. loadExistingEdges D c r = Inr (B, r1)"
proof -
  let ?a = "fst (Store_Query D (existingEdgesQuery c) (run_store (intraEdges D c r)))"
  show ?thesis
  proof (cases "snd ?a")
    case None
    then obtain qr where "fst ?a = Some qr"
      using assms [of "existingEdgesQuery c" "run_store (intraEdges D c r)"] by auto
    with None show ?thesis
      by (simp add: loadExistingEdges_def split_def Let_def query_run)
  next
    case (Some e)
    then show ?thesis
      by (simp add: loadExistingEdges_def split_def Let_def query_run)
  qed
qed

lemma deleteDuplicateEdges_Inr:
  assumes "deleteDuplicateEdges D c r = Inr r2"
  shows "\<exists>e. run_stats r2 = run_stats r
           \<and> run_err r2 = lastError e (run_err r)
           \<and> filter isMutation (run_trace r2) = filter isMutation (run_trace r)
           \<and> queriesOf (run_trace r2) = queriesOf (run_trace r) @ [duplicateEdgesQuery c]"
proof -
  obtain res e where a: "fst (Store_Query D (duplicateEdgesQuery c) (run_store r)) = (res, e)"
    by (cases "fst (Store_Query D (duplicateEdgesQuery c) (run_store r))")
  then have q: "fst (query D (duplicateEdgesQuery c) r) = (res, e)" by (simp add: query_run)
  from assms q a show ?thesis
    by (intro exI [of _ e])
       (auto simp: deleteDuplicateEdges_def split_def Let_def query_run emit_run intraEdges_run
          lastError_def queriesOf_append split: option.splits)
qed

lemma deleteDuplicateEdges_total:
  assumes "\<And>q s. snd (fst (Store_Query D q s)) = None \<Longrightarrow> fst (fst (Store_Query D q s)) \<noteq> None"
  shows "\<exists>r2. deleteDuplicateEdges D c r = Inr r2"
proof -
  let ?a = "fst (Store_Query D (duplicateEdgesQuery c) (run_store r))"
  show ?thesis
  proof (cases "snd ?a")
    case None
    then obtain qr where "fst ?a = Some qr"
      using assms [of "duplicateEdgesQuery c" "run_store r"] by auto
    with None show ?thesis
      by (simp add: deleteDuplicateEdges_def split_def Let_def query_run)
  next
    case (Some e)
    then show ?thesis
      by (simp add: deleteDuplicateEdges_def split_def Let_def query_run)
  qed
qed

lemma edgeDiffLog_plain:
  "filter isMutation (edgeDiffLog c es n d) = [] \<and> queriesOf (edgeDiffLog c es n d) = []"
  by (simp add: edgeDiffLog_def Let_def)

lemma resyncEdges_shape:
  assumes "resyncEdges D c es r = Inr r'"
  shows "\<exists>B rea red e2 e3.
           (\<exists>records. B = fst (scanExistingEdges records))
           \<and> filter isMutation (run_trace r') =
             filter isMutation (run_trace r)
             @ [EvChunkedInsertEdge (edgesToAdd (diffEdges es B)) c rea,
                EvChunkedDeleteEdge (edgesToDelete (diffEdges es B)) c red]
           \<and> queriesOf (run_trace r') =
               queriesOf (run_trace r) @ [existingEdgesQuery c, duplicateEdgesQuery c]
           \<and> run_stats r' =
               (run_stats r)\<lparr>TotalEdgesAdded := SuccessfulResources rea,
                  AddEdgeErrors :=
                    itemErrors D rea ''inserted by edge'' (AddEdgeErrors (run_stats r)),
                  TotalEdgesDeleted := SuccessfulResources red,
                  DeleteEdgeErrors :=
                    itemErrors D red ''removed by edge'' (DeleteEdgeErrors (run_stats r))\<rparr>
           \<and> run_err r' =
               lastError (ConnectionError red) (lastError (ConnectionError rea)
                 (lastError e3 (lastError e2 (run_err r))))"
proof -
  from assms obtain B r1 where l: "loadExistingEdges D c r = Inr (B, r1)"
    by (auto simp: resyncEdges_def split: sum.splits)
  with assms obtain r2 where d: "deleteDuplicateEdges D c r1 = Inr r2"
    by (auto simp: resyncEdges_def split: sum.splits)
  define dE where "dE = diffEdges es B"
  define r3 where "r3 = emit (edgeDiffLog c es (length B) dE) r2"
  define r4 where "r4 = insertEdges D c (edgesToAdd dE) r3"
  have r': "r' = deleteEdges D c (edgesToDelete dE) r4"
    using assms l d by (simp add: resyncEdges_def Let_def dE_def r3_def r4_def)
  from loadExistingEdges_Inr [OF l] obtain res :: "QueryResult option" and e2 where
    b: "B = (case e2 of Some x \<Rightarrow> []
             | None \<Rightarrow> (case res of Some qr \<Rightarrow> fst (scanExistingEdges (results qr))
                         | None \<Rightarrow> []))"
    and
    s1: "run_stats r1 = run_stats r" "run_err r1 = lastError e2 (run_err r)"
        "filter isMutation (run_trace r1) = filter isMutation (run_trace r)"
        "queriesOf (run_trace r1) = queriesOf (run_trace r) @ [existingEdgesQuery c]"
    by blast
  from deleteDuplicateEdges_Inr [OF d] obtain e3 where
    s2: "run_stats r2 = run_stats r1" "run_err r2 = lastError e3 (run_err r1)"
        "filter isMutation (run_trace r2) = filter isMutation (run_trace r1)"
        "queriesOf (run_trace r2) = queriesOf (run_trace r1) @ [duplicateEdgesQuery c]"
    by blast
  have s3: "run_stats r3 = run_stats r2" "run_err r3 = run_err r2"
        "filter isMutation (run_trace r3) = filter isMutation (run_trace r2)"
        "queriesOf (run_trace r3) = queriesOf (run_trace r2)"
    by (simp_all add: r3_def emit_run edgeDiffLog_plain queriesOf_append)
  from insertEdges_run [of D c "edgesToAdd dE" r3] obtain rea where
    s4: "filter isMutation (run_trace r4) =
           filter isMutation (run_trace r3) @ [EvChunkedInsertEdge (edgesToAdd dE) c rea]"
        "queriesOf (run_trace r4) = queriesOf (run_trace r3)"
        "run_stats r4 = (run_stats r3)\<lparr>TotalEdgesAdded := SuccessfulResources rea,
            AddEdgeErrors := itemErrors D rea ''inserted by edge'' (AddEdgeErrors (run_stats r3))\<rparr>"
        "run_err r4 = lastError (ConnectionError rea) (run_err r3)"
    unfolding r4_def by blast
  from deleteEdges_run [of D c "edgesToDelete dE" r4] obtain red where
    s5: "filter isMutation (run_trace r') =
           filter isMutation (run_trace r4) @ [EvChunkedDeleteEdge (edgesToDelete dE) c red]"
        "queriesOf (run_trace r') = queriesOf (run_trace r4)"
        "run_stats r' = (run_stats r4)\<lparr>TotalEdgesDeleted := SuccessfulResources red,
            DeleteEdgeErrors :=
              itemErrors D red ''removed by edge'' (DeleteEdgeErrors (run_stats r4))\<rparr>"
        "run_err r' = lastError (ConnectionError red) (run_err r4)"
    unfolding r' by blast
  have recs: "\<exists>records. B = fst (scanExistingEdges records)"
  proof (cases "e2 = None \<and> res \<noteq> None")
    case True
    then obtain qr where "res = Some qr" by auto
    with True b have "B = fst (scanExistingEdges (results qr))" by simp
    then show ?thesis by blast
  next
    case False
    with b have "B = fst (scanExistingEdges [])"
      by (auto simp: scanExistingEdges_def split: option.splits)
    then show ?thesis by blast
  qed
  show ?thesis
    apply (rule exI [of _ B], rule exI [of _ rea], rule exI [of _ red],
           rule exI [of _ e2], rule exI [of _ e3])
    using recs s1 s2 s3 s4 s5 by (simp add: dE_def)
qed

lemma resyncEdges_total:
  assumes "\<And>q s. snd (fst (Store_Query D q s)) = None \<Longrightarrow> fst (fst (Store_Query D q s)) \<noteq> None"
  shows "\<exists>r'. resyncEdges D c es r = Inr r'"
proof -
  obtain B r1 where l: "loadExistingEdges D c r = Inr (B, r1)"
    using loadExistingEdges_total [of D c r] assms by blast
  obtain r2 where d: "deleteDuplicateEdges D c r1 = Inr r2"
    using deleteDuplicateEdges_total [of D c r1] assms by blast
  from l d show ?thesis by (simp add: resyncEdges_def Let_def)
qed

lemma baseline_nodes:
  "\<forall>(k, n) \<in> set (fst (removeDuplicates D c (scanExisting records) r)). nodeUID n = Inr k"
proof -
  obtain ex dup where s: "scanExisting records = (ex, dup)" by (cases "scanExisting records")
  have "\<forall>(k, n) \<in> set ex. nodeUID n = Inr k"
    using scanInv_scanExisting [of records] s by (simp add: scanInv_def)
  then show ?thesis by (auto simp: s removeDuplicates_fst)
qed

lemma baseline_distinct:
  "distinct (map fst (fst (removeDuplicates D c (scanExisting records) r)))"
proof -
  obtain ex dup where s: "scanExisting records = (ex, dup)" by (cases "scanExisting records")
  have "distinct (map fst ex)"
    using scanInv_scanExisting [of records] s by (simp add: scanInv_def)
  then show ?thesis by (simp add: s removeDuplicates_fst distinct_map_filter)
qed

lemma diff_existing_nodes:
  "\<forall>(k, n) \<in> set B. nodeUID n = Inr k \<Longrightarrow>
   collectDeleteUIDS (existingResources (diffResources D rs B)) =
     Inr (map fst (filter (\<lambda>(k, _). k \<notin> UID ` set rs) B))"
proof -
  assume a: "\<forall>(k, n) \<in> set B. nodeUID n = Inr k"
  have e: "existingResources (diffResources D rs B) = filter (\<lambda>(k, _). k \<notin> UID ` set rs) B"
    by (simp add: diffResources_def foldres_existing)
  show ?thesis unfolding e by (rule collectDeleteUIDS_keys) (use a in auto)
qed

lemma resyncResources_shape:
  assumes "resyncResources D c rs r = Inr r'"
  shows "\<exists>qr e1 r1 ra ru rd.
           fst (Store_Query D (existingResourcesQuery D c) (run_store r)) = (Some qr, e1)
           \<and> filter isMutation (run_trace r') =
               filter isMutation (run_trace r)
               @ [EvChunkedInsert
                    (resourcesToAdd (diffResources D rs
                       (fst (removeDuplicates D c (scanExisting (results qr)) r1)))) c ra,
                  EvChunkedUpdate
                    (resourcesToUpdate (diffResources D rs
                       (fst (removeDuplicates D c (scanExisting (results qr)) r1)))) ru,
                  EvChunkedDelete
                    (map fst (existingResources (diffResources D rs
                       (fst (removeDuplicates D c (scanExisting (results qr)) r1))))) rd]
           \<and> queriesOf (run_trace r') =
               queriesOf (run_trace r) @ existingResourcesQuery D c
                 # map (duplicateQuery D) (map fst (snd (scanExisting (results qr))))
           \<and> run_stats r' =
               (run_stats r)\<lparr>TotalAdded := SuccessfulResources ra,
                  AddErrors := itemErrors D ra ''inserted'' (AddErrors (run_stats r)),
                  TotalUpdated := SuccessfulResources ru,
                  UpdateErrors := itemErrors D ru ''updated'' (UpdateErrors (run_stats r)),
                  TotalDeleted := SuccessfulResources rd,
                  DeleteErrors := itemErrors D rd ''deleted'' (DeleteErrors (run_stats r))\<rparr>
           \<and> run_err r' =
               lastError (ConnectionError rd) (lastError (ConnectionError ru)
                 (lastError (ConnectionError ra) (lastError e1 (run_err r))))"
proof -
  from assms obtain maps r1 where l: "loadExistingResources D c r = Inr (maps, r1)"
    by (auto simp: resyncResources_def split: sum.splits)
  from loadExistingResources_Inr [OF l] obtain qr e1 where
    s1: "fst (Store_Query D (existingResourcesQuery D c) (run_store r)) = (Some qr, e1)"
        "maps = scanExisting (results qr)"
        "run_stats r1 = run_stats r" "run_err r1 = lastError e1 (run_err r)"
        "run_trace r1 = run_trace r @ EvQuery (existingResourcesQuery D c) (Some qr) e1
            # (case e1 of Some x \<Rightarrow> [EvLog (Err_GettingExistingResources c)] | None \<Rightarrow> [])"
    unfolding lastError_def by blast
  obtain ex dup where m: "maps = (ex, dup)" by (cases maps)
  define B where "B = fst (removeDuplicates D c maps r1)"
  define r2 where "r2 = snd (removeDuplicates D c maps r1)"
  define dR where "dR = diffResources D rs B"
  define r3 where "r3 = emit (diffLog dR) r2"
  define r4 where "r4 = insertResources D c (resourcesToAdd dR) r3"
  define r5 where "r5 = updateResources D (resourcesToUpdate dR) r4"
  have nodes: "\<forall>(k, n) \<in> set B. nodeUID n = Inr k"
    unfolding B_def s1(2) by (rule baseline_nodes)
  have e: "existingResources dR = filter (\<lambda>(k, _). k \<notin> UID ` set rs) B"
    by (simp add: dR_def diffResources_def foldres_existing)
  have dl: "collectDeleteUIDS (existingResources dR) = Inr (map fst (existingResources dR))"
    using diff_existing_nodes [OF nodes, of D rs] e by (simp add: dR_def)
  have r': "r' = deleteResources D (map fst (existingResources dR)) r5"
    using assms l dl
    by (simp add: resyncResources_def Let_def split_def B_def r2_def dR_def r3_def r4_def r5_def)
  from removeDuplicates_run [of dup D c ex r1] obtain answers where
    s2: "length answers = length dup" "run_stats r2 = run_stats r1" "run_err r2 = run_err r1"
        "run_trace r2 = run_trace r1
           @ (if dup = [] then [] else [EvLog (Warn_DuplicateRecords c (int (length dup)))])
           @ concat (map (\<lambda>(u, a). deletionEvents (duplicateQuery D u) u a)
                       (zip (map fst dup) answers))"
    unfolding r2_def m by blast
  have plain: "filter isMutation (concat (map (\<lambda>(u, a). deletionEvents (duplicateQuery D u) u a)
                               (zip (map fst dup) answers))) = []"
     "queriesOf (concat (map (\<lambda>(u, a). deletionEvents (duplicateQuery D u) u a)
                          (zip (map fst dup) answers))) = map (duplicateQuery D) (map fst dup)"
    using deletion_trace_plain [of answers "map fst dup" D] s2(1) by simp_all
  have t2: "filter isMutation (run_trace r2) = filter isMutation (run_trace r)"
    "queriesOf (run_trace r2) = queriesOf (run_trace r) @ existingResourcesQuery D c
                 # map (duplicateQuery D) (map fst dup)"
    using plain by (simp_all add: s2(4) s1(5) queriesOf_append split: option.splits)
  have s3: "run_stats r3 = run_stats r2" "run_err r3 = run_err r2"
        "filter isMutation (run_trace r3) = filter isMutation (run_trace r2)"
        "queriesOf (run_trace r3) = queriesOf (run_trace r2)"
    by (simp_all add: r3_def dR_def emit_run diffResources_log_plain queriesOf_append)
  from insertResources_run [of D c "resourcesToAdd dR" r3] obtain ra where
    s4: "run_trace r4 = run_trace r3 @ [EvChunkedInsert (resourcesToAdd dR) c ra]"
        "run_stats r4 = (run_stats r3)\<lparr>TotalAdded := SuccessfulResources ra,
            AddErrors := itemErrors D ra ''inserted'' (AddErrors (run_stats r3))\<rparr>"
        "run_err r4 = lastError (ConnectionError ra) (run_err r3)"
    unfolding r4_def by blast
  from updateResources_run [of D "resourcesToUpdate dR" r4] obtain ru where
    s5: "run_trace r5 = run_trace r4 @ [EvChunkedUpdate (resourcesToUpdate dR) ru]"
        "run_stats r5 = (run_stats r4)\<lparr>TotalUpdated := SuccessfulResources ru,
            UpdateErrors := itemErrors D ru ''updated'' (UpdateErrors (run_stats r4))\<rparr>"
        "run_err r5 = lastError (ConnectionError ru) (run_err r4)"
    unfolding r5_def by blast
  from deleteResources_run [of D "map fst (existingResources dR)" r5] obtain rd where
    s6: "run_trace r' = run_trace r5 @ [EvChunkedDelete (map fst (existingResources dR)) rd]"
        "run_stats r' = (run_stats r5)\<lparr>TotalDeleted := SuccessfulResources rd,
            DeleteErrors := itemErrors D rd ''deleted'' (DeleteErrors (run_stats r5))\<rparr>"
        "run_err r' = lastError (ConnectionError rd) (run_err r5)"
    unfolding r' by blast
  have dup: "snd (scanExisting (results qr)) = dup"
    using s1(2) m by (cases "scanExisting (results qr)") simp
  have Bq: "B = fst (removeDuplicates D c (scanExisting (results qr)) r1)"
    by (simp add: B_def s1(2))
  show ?thesis
    apply (rule exI [of _ qr], rule exI [of _ e1], rule exI [of _ r1], rule exI [of _ ra],
           rule exI [of _ ru], rule exI [of _ rd])
    unfolding dup Bq [symmetric]
    using s1(1,3,4) s2(2,3) t2 s3 s4 s5 s6
    by (simp add: dR_def queriesOf_append)
qed

section \<open>The whole cycle\<close>

lemma resyncResources_total:
  assumes "fst (fst (Store_Query D (existingResourcesQuery D c) (run_store r))) \<noteq> None"
  shows "\<exists>r'. resyncResources D c rs r = Inr r'"
proof -
  from loadExistingResources_total [OF assms] obtain maps r1 where
    l: "loadExistingResources D c r = Inr (maps, r1)" by blast
  from loadExistingResources_Inr [OF l] obtain qr :: QueryResult where m: "maps = scanExisting (results qr)"
    by blast
  define B where "B = fst (removeDuplicates D c maps r1)"
  have "\<forall>(k, n) \<in> set B. nodeUID n = Inr k"
    unfolding B_def m by (rule baseline_nodes)
  then have "collectDeleteUIDS (existingResources (diffResources D rs B)) =
               Inr (map fst (filter (\<lambda>(k, _). k \<notin> UID ` set rs) B))"
    by (rule diff_existing_nodes)
  with l show ?thesis
    by (simp add: resyncResources_def Let_def split_def B_def)
qed

lemma resyncResources_store:
  "resyncResources D c rs r = Inl p \<Longrightarrow>
   fst (fst (Store_Query D (existingResourcesQuery D c) (run_store r))) = None"
  using resyncResources_total [of D c r rs] by (cases "fst (fst (Store_Query D (existingResourcesQuery D c) (run_store r)))") auto

lemma resyncCluster_total:
  assumes "\<And>q s. fst (fst (Store_Query D q s)) \<noteq> None"
  shows "\<exists>r. resyncCluster D c rs es s = Inr r"
proof -
  have "fst (fst (Store_Query D (existingResourcesQuery D c) (run_store (newRun s)))) \<noteq> None"
    by (rule assms)
  from resyncResources_total [OF this] obtain r1 where
    a: "resyncResources D c rs (newRun s) = Inr r1" by blast
  have "\<exists>r'. resyncEdges D c es r1 = Inr r'"
    by (rule resyncEdges_total) (rule assms)
  with a show ?thesis by (simp add: resyncCluster_def)
qed

lemma resyncCluster_nil_result:
  "fst (fst (Store_Query D (existingResourcesQuery D c) s)) = None \<Longrightarrow>
   resyncCluster D c rs es s = Inl NilDereference"
  by (simp add: resyncCluster_def resyncResources_def loadExistingResources_nil newRun_def)

lemma resyncCluster_shape:
  assumes "resyncCluster D c rs es s = Inr r"
  shows "\<exists>qr e1 r1 B ra ru rd rea red e2 e3.
           fst (Store_Query D (existingResourcesQuery D c) s) = (Some qr, e1)
           \<and> (\<exists>records. B = fst (scanExistingEdges records))
           \<and> filter isMutation (run_trace r) =
               [EvChunkedInsert
                  (resourcesToAdd (diffResources D rs
                     (fst (removeDuplicates D c (scanExisting (results qr)) r1)))) c ra,
                EvChunkedUpdate
                  (resourcesToUpdate (diffResources D rs
                     (fst (removeDuplicates D c (scanExisting (results qr)) r1)))) ru,
                EvChunkedDelete
                  (map fst (existingResources (diffResources D rs
                     (fst (removeDuplicates D c (scanExisting (results qr)) r1))))) rd,
                EvChunkedInsertEdge (edgesToAdd (diffEdges es B)) c rea,
                EvChunkedDeleteEdge (edgesToDelete (diffEdges es B)) c red]
           \<and> queriesOf (run_trace r) =
               existingResourcesQuery D c
               # map (duplicateQuery D) (map fst (snd (scanExisting (results qr))))
               @ [existingEdgesQuery c, duplicateEdgesQuery c]
           \<and> run_stats r =
               \<lparr>TotalAdded = SuccessfulResources ra, TotalUpdated = SuccessfulResources ru,
                TotalDeleted = SuccessfulResources rd,
                TotalEdgesAdded = SuccessfulResources rea,
                TotalEdgesDeleted = SuccessfulResources red,
                AddErrors = itemErrors D ra ''inserted'' [],
                UpdateErrors = itemErrors D ru ''updated'' [],
                DeleteErrors = itemErrors D rd ''deleted'' [],
                AddEdgeErrors = itemErrors D rea ''inserted by edge'' [],
                DeleteEdgeErrors = itemErrors D red ''removed by edge'' []\<rparr>
           \<and> run_err r =
               lastError (ConnectionError red) (lastError (ConnectionError rea)
                 (lastError e3 (lastError e2
                   (lastError (ConnectionError rd) (lastError (ConnectionError ru)
                     (lastError (ConnectionError ra) e1))))))"
proof -
  from assms obtain r1 where
    a: "resyncResources D c rs (newRun s) = Inr r1" and b: "resyncEdges D c es r1 = Inr r"
    by (auto simp: resyncCluster_def split: sum.splits)
  from resyncResources_shape [OF a] obtain qr e1 r0 ra ru rd where
    s1: "fst (Store_Query D (existingResourcesQuery D c) (run_store (newRun s))) = (Some qr, e1)"
    "filter isMutation (run_trace r1) =
               filter isMutation (run_trace (newRun s))
               @ [EvChunkedInsert
                    (resourcesToAdd (diffResources D rs
                       (fst (removeDuplicates D c (scanExisting (results qr)) r0)))) c ra,
                  EvChunkedUpdate
                    (resourcesToUpdate (diffResources D rs
                       (fst (removeDuplicates D c (scanExisting (results qr)) r0)))) ru,
                  EvChunkedDelete
                    (map fst (existingResources (diffResources D rs
                       (fst (removeDuplicates D c (scanExisting (results qr)) r0))))) rd]"
    "queriesOf (run_trace r1) =
               queriesOf (run_trace (newRun s)) @ existingResourcesQuery D c
                 # map (duplicateQuery D) (map fst (snd (scanExisting (results qr))))"
    "run_stats r1 =
               (run_stats (newRun s))\<lparr>TotalAdded := SuccessfulResources ra,
                  AddErrors := itemErrors D ra ''inserted'' (AddErrors (run_stats (newRun s))),
                  TotalUpdated := SuccessfulResources ru,
                  UpdateErrors := itemErrors D ru ''updated'' (UpdateErrors (run_stats (newRun s))),
                  TotalDeleted := SuccessfulResources rd,
                  DeleteErrors := itemErrors D rd ''deleted'' (DeleteErrors (run_stats (newRun s)))\<rparr>"
    "run_err r1 =
               lastError (ConnectionError rd) (lastError (ConnectionError ru)
                 (lastError (ConnectionError ra) (lastError e1 (run_err (newRun s)))))"
    by blast
  from resyncEdges_shape [OF b] obtain B rea red e2 e3 where
    s2: "\<exists>records. B = fst (scanExistingEdges records)"
    "filter isMutation (run_trace r) =
             filter isMutation (run_trace r1)
             @ [EvChunkedInsertEdge (edgesToAdd (diffEdges es B)) c rea,
                EvChunkedDeleteEdge (edgesToDelete (diffEdges es B)) c red]"
    "queriesOf (run_trace r) =
               queriesOf (run_trace r1) @ [existingEdgesQuery c, duplicateEdgesQuery c]"
    "run_stats r =
               (run_stats r1)\<lparr>TotalEdgesAdded := SuccessfulResources rea,
                  AddEdgeErrors :=
                    itemErrors D rea ''inserted by edge'' (AddEdgeErrors (run_stats r1)),
                  TotalEdgesDeleted := SuccessfulResources red,
                  DeleteEdgeErrors :=
                    itemErrors D red ''removed by edge'' (DeleteEdgeErrors (run_stats r1))\<rparr>"
    "run_err r =
               lastError (ConnectionError red) (lastError (ConnectionError rea)
                 (lastError e3 (lastError e2 (run_err r1))))"
    by blast
  have e: "lastError e1 None = e1" by (simp add: lastError_def split: option.splits)
  show ?thesis
    apply (rule exI [of _ qr], rule exI [of _ e1], rule exI [of _ r0], rule exI [of _ B],
           rule exI [of _ ra], rule exI [of _ ru], rule exI [of _ rd], rule exI [of _ rea],
           rule exI [of _ red], rule exI [of _ e2], rule exI [of _ e3])
    using s1 s2 e by (simp add: newRun_def zeroSyncResponse_def)
qed

end
